theory Spec2Isabelle
  imports Main "HOL-Library.Word"
begin

unbundle bit_operations_syntax

text \<open>
  A shallow embedding of the layout engine of \<^verbatim>\<open>abootimg.c\<close>, the tool that reads, updates
  and creates Android boot images: \<^verbatim>\<open>check_boot_img_header\<close>, \<^verbatim>\<open>read_header\<close>,
  \<^verbatim>\<open>update_images\<close>, \<^verbatim>\<open>write_bootimg\<close>, \<^verbatim>\<open>extract_kernel\<close>, \<^verbatim>\<open>extract_ramdisk\<close>,
  \<^verbatim>\<open>extract_second\<close> and the update and create cases of \<^verbatim>\<open>main\<close>, over the structs of
  \<^verbatim>\<open>bootimg.h\<close>. The parsing of arguments and of the configuration text, the probing of
  block devices and the printing of reports are not embedded: what they do enters
  through the \<^verbatim>\<open>t_abootimg\<close> value that the embedded functions start from. The
  definitions come first, the properties after them.
\<close>

section \<open>Machine integers and the page layout\<close>

text \<open>
  The program is C compiled for a little-endian target on which \<^verbatim>\<open>unsigned\<close> has 32 bits
  and \<^verbatim>\<open>size_t\<close>, \<^verbatim>\<open>off_t\<close> have 64. Every \<^verbatim>\<open>unsigned\<close> of the source is a
  \<^typ>\<open>32 word\<close>: addition, subtraction and multiplication wrap, \<open>div\<close> and \<open>mod\<close> are the
  unsigned ones.
\<close>

type_synonym u32 = "32 word"
type_synonym byte = "8 word"

text \<open>The rounding-up division by which a byte size is read as a number of pages.\<close>

abbreviation ceil_div :: "nat \<Rightarrow> nat \<Rightarrow> nat" where
  "ceil_div a b \<equiv> (a + b - 1) div b"

text \<open>
  \<^verbatim>\<open>unsigned n = (ksize + page_size - 1) / page_size;\<close> The same expression gives
  \<^verbatim>\<open>n\<close>, \<^verbatim>\<open>m\<close>, \<^verbatim>\<open>o\<close> and \<^verbatim>\<open>p\<close> in \<^verbatim>\<open>check_boot_img_header\<close>,
  \<^verbatim>\<open>update_images\<close> and \<^verbatim>\<open>write_bootimg\<close>.
\<close>

definition pages :: "u32 \<Rightarrow> u32 \<Rightarrow> u32" where
  "pages sz page_size = (sz + page_size - 1) div page_size"

text \<open>
  The offsets of \<^verbatim>\<open>update_images\<close>: \<^verbatim>\<open>roffset = (1+n)*page_size\<close>,
  \<^verbatim>\<open>soffset = (1+n+m)*page_size\<close>, \<^verbatim>\<open>doffset = (1+n+m+o)*page_size\<close>. The writer seeks to
  the same three expressions and to \<^verbatim>\<open>(1+n+m+o+p)*psize\<close> for the signature; the kernel
  follows the header page, at \<^verbatim>\<open>psize\<close>.
\<close>

definition koffset :: "u32 \<Rightarrow> u32" where
  "koffset page_size = page_size"

definition roffset :: "u32 \<Rightarrow> u32 \<Rightarrow> u32" where
  "roffset page_size ksize = (1 + pages ksize page_size) * page_size"

definition soffset :: "u32 \<Rightarrow> u32 \<Rightarrow> u32 \<Rightarrow> u32" where
  "soffset page_size ksize rsize =
     (1 + pages ksize page_size + pages rsize page_size) * page_size"

definition doffset :: "u32 \<Rightarrow> u32 \<Rightarrow> u32 \<Rightarrow> u32 \<Rightarrow> u32" where
  "doffset page_size ksize rsize ssize =
     (1 + pages ksize page_size + pages rsize page_size + pages ssize page_size) * page_size"

definition signature_offset :: "u32 \<Rightarrow> u32 \<Rightarrow> u32 \<Rightarrow> u32 \<Rightarrow> u32 \<Rightarrow> u32" where
  "signature_offset page_size ksize rsize ssize dsize =
     (1 + pages ksize page_size + pages rsize page_size + pages ssize page_size
        + pages dsize page_size) * page_size"

text \<open>\<^verbatim>\<open>unsigned total_size = (1+n+m+o+p+1)*page_size;\<close> at the end of \<^verbatim>\<open>update_images\<close>.\<close>

definition total_size :: "u32 \<Rightarrow> u32 \<Rightarrow> u32 \<Rightarrow> u32 \<Rightarrow> u32 \<Rightarrow> u32" where
  "total_size page_size ksize rsize ssize dsize =
     (1 + pages ksize page_size + pages rsize page_size + pages ssize page_size
        + pages dsize page_size + 1) * page_size"

text \<open>
  \<^verbatim>\<open>extract_second\<close> locates the second stage with one page count for kernel and ramdisk
  together: \<^verbatim>\<open>n = (rsize + ksize + psize - 1) / psize; soffset = (1+n)*psize;\<close>
\<close>

definition extract_second_soffset :: "u32 \<Rightarrow> u32 \<Rightarrow> u32 \<Rightarrow> u32" where
  "extract_second_soffset psize ksize rsize =
     (1 + (rsize + ksize + psize - 1) div psize) * psize"

section \<open>Bytes, words and fixed-size arrays\<close>

text \<open>
  A struct is read from and written to a file as its bytes. A 32-bit field occupies four
  bytes, least significant first; \<open>get32\<close> and \<open>set32\<close> are the accesses the source makes
  through a cast pointer (\<^verbatim>\<open>(dtbs_t *)d\<close>, \<^verbatim>\<open>dt[ientry].offset = ...\<close>). Callers check
  that the four bytes lie inside the buffer.
\<close>

definition le32 :: "u32 \<Rightarrow> byte list" where
  "le32 w = [ucast w, ucast (drop_bit 8 w), ucast (drop_bit 16 w), ucast (drop_bit 24 w)]"

definition word_le32 :: "byte list \<Rightarrow> u32" where
  "word_le32 bs = ucast (bs ! 0) OR push_bit 8 (ucast (bs ! 1))
      OR push_bit 16 (ucast (bs ! 2)) OR push_bit 24 (ucast (bs ! 3))"

definition get32 :: "byte list \<Rightarrow> nat \<Rightarrow> u32" where
  "get32 buf off = word_le32 (take 4 (drop off buf))"

definition set32 :: "byte list \<Rightarrow> nat \<Rightarrow> u32 \<Rightarrow> byte list" where
  "set32 buf off v = take off buf @ le32 v @ drop (off + 4) buf"

text \<open>A C array of \<open>n\<close> elements: the list cut or zero-filled to that length.\<close>

definition fixed :: "nat \<Rightarrow> 'a::zero list \<Rightarrow> 'a list" where
  "fixed n xs = take n xs @ replicate (n - length xs) 0"

definition cstr :: "string \<Rightarrow> byte list" where
  "cstr s = map of_char s"

section \<open>The boot image header\<close>

text \<open>\<^verbatim>\<open>struct boot_img_hdr\<close> of \<^verbatim>\<open>bootimg.h\<close>; \<^verbatim>\<open>id\<close> is \<open>hdr_id\<close> here.\<close>

record boot_img_hdr =
  magic :: "byte list"
  kernel_size :: u32
  kernel_addr :: u32
  ramdisk_size :: u32
  ramdisk_addr :: u32
  second_size :: u32
  second_addr :: u32
  tags_addr :: u32
  page_size :: u32
  dtbs_size :: u32
  unused :: u32
  name :: "byte list"
  cmdline :: "byte list"
  hdr_id :: "u32 list"

definition BOOT_MAGIC :: "byte list" where
  "BOOT_MAGIC = cstr ''ANDROID!''"

text \<open>\<^verbatim>\<open>sizeof(boot_img_hdr)\<close>: 8 + 10 * 4 + 16 + 512 + 8 * 4.\<close>

definition sizeof_hdr :: nat where
  "sizeof_hdr = 608"

text \<open>The bytes of the struct, as \<^verbatim>\<open>fwrite(&img->header, sizeof(img->header), 1, ...)\<close> emits them.\<close>

definition hdr_bytes :: "boot_img_hdr \<Rightarrow> byte list" where
  "hdr_bytes h =
     fixed 8 (magic h) @ le32 (kernel_size h) @ le32 (kernel_addr h)
     @ le32 (ramdisk_size h) @ le32 (ramdisk_addr h)
     @ le32 (second_size h) @ le32 (second_addr h)
     @ le32 (tags_addr h) @ le32 (page_size h) @ le32 (dtbs_size h) @ le32 (unused h)
     @ fixed 16 (name h) @ fixed 512 (cmdline h) @ concat (map le32 (fixed 8 (hdr_id h)))"

text \<open>The struct that \<^verbatim>\<open>fread(&img->header, sizeof(boot_img_hdr), 1, ...)\<close> fills from 608 bytes.\<close>

definition hdr_of_bytes :: "byte list \<Rightarrow> boot_img_hdr" where
  "hdr_of_bytes b =
     \<lparr>magic = take 8 b,
      kernel_size = get32 b 8, kernel_addr = get32 b 12,
      ramdisk_size = get32 b 16, ramdisk_addr = get32 b 20,
      second_size = get32 b 24, second_addr = get32 b 28,
      tags_addr = get32 b 32, page_size = get32 b 36, dtbs_size = get32 b 40,
      unused = get32 b 44,
      name = take 16 (drop 48 b), cmdline = take 512 (drop 64 b),
      hdr_id = map (get32 b) [576, 580, 584, 588, 592, 596, 600, 604]\<rparr>"

section \<open>The device tree table\<close>

text \<open>
  \<^verbatim>\<open>struct dtbs_t\<close> is three words (magic, version, num_entries: 12 bytes); the entries
  \<^verbatim>\<open>dt_entry_t\<close> follow it, 32 bytes each (seven words, \<^verbatim>\<open>char padding[2]\<close> and two bytes
  of alignment), with \<^verbatim>\<open>offset\<close> at byte 20 and \<^verbatim>\<open>dtb_size\<close> at byte 24 of the entry.
\<close>

definition num_entries :: "byte list \<Rightarrow> u32" where
  "num_entries d = get32 d 8"

definition dt_entry :: "nat \<Rightarrow> nat" where
  "dt_entry ientry = 12 + 32 * ientry"

definition dt_offset :: "byte list \<Rightarrow> nat \<Rightarrow> u32" where
  "dt_offset d ientry = get32 d (dt_entry ientry + 20)"

definition dt_dtb_size :: "byte list \<Rightarrow> nat \<Rightarrow> u32" where
  "dt_dtb_size d ientry = get32 d (dt_entry ientry + 24)"

text \<open>
  An element of the pointer table \<^verbatim>\<open>img->dtbs\<close>: a buffer of its own (a sub-blob read
  from a replacement file) or a pointer \<^verbatim>\<open>d + dt[ientry].offset\<close> into the table's buffer.
\<close>

datatype dtb_ptr = Buf "byte list" | InDtbh nat

section \<open>Streams and files\<close>

text \<open>
  An open \<^verbatim>\<open>FILE*\<close>: the bytes of the file or device and the position. Writing past the
  end extends a file, the gap reading as zero bytes. A call \<^verbatim>\<open>fread(buf, size, 1, f)\<close>
  returns 1 only when \<open>size\<close> is not 0 and all \<open>size\<close> bytes were there; every caller
  that checks the result aborts otherwise. Failures of the medium itself (a full disk,
  a failing \<^verbatim>\<open>malloc\<close>) are outside this model.
\<close>

record stream_t =
  contents :: "byte list"
  pos :: nat
  blockdev :: bool

definition fseek :: "stream_t \<Rightarrow> nat \<Rightarrow> stream_t" where
  "fseek f off = f\<lparr>pos := off\<rparr>"

definition fwrite :: "stream_t \<Rightarrow> byte list \<Rightarrow> stream_t" where
  "fwrite f buf =
     f\<lparr>contents := take (pos f) (contents f) @ replicate (pos f - length (contents f)) 0
                     @ buf @ drop (pos f + length buf) (contents f),
       pos := pos f + length buf\<rparr>"

definition fread :: "stream_t \<Rightarrow> nat \<Rightarrow> (byte list \<times> stream_t) option" where
  "fread f n =
     (if n = 0 \<or> length (contents f) < pos f + n then None
      else Some (take n (drop (pos f) (contents f)), f\<lparr>pos := pos f + n\<rparr>))"

text \<open>The files named on the command line: a name that is not there cannot be opened.\<close>

type_synonym files = "string \<Rightarrow> byte list option"

section \<open>Errors\<close>

text \<open>
  \<^verbatim>\<open>abort_perror\<close> and \<^verbatim>\<open>abort_printf\<close> end the process; the model returns the error
  instead. \<open>IoError\<close> is a failed open, seek or read, \<open>FormatError\<close> a header that
  \<^verbatim>\<open>check_boot_img_header\<close> refuses or a null page size, \<open>CapacityError\<close> an image too
  big for its container, \<open>UsageError\<close> a command line that \<^verbatim>\<open>main\<close> answers with the
  usage text. The last three are not exits of the program but places where
  the C code has no defined behaviour: a read or write past the end of an allocated
  buffer, a write from a null pointer, a division by zero.
\<close>

datatype error = IoError | FormatError | CapacityError | UsageError
  | BufferOverrun | NullPointer | DivByZero

definition ebind :: "error + 'a \<Rightarrow> ('a \<Rightarrow> error + 'b) \<Rightarrow> error + 'b" where
  "ebind r f = (case r of Inl e \<Rightarrow> Inl e | Inr x \<Rightarrow> f x)"

section \<open>The working set\<close>

text \<open>
  \<^verbatim>\<open>t_abootimg\<close>; its field \<^verbatim>\<open>size\<close> is \<open>img_size\<close> here. A null pointer is \<open>None\<close>.
  The names of the image and of the configuration file only appear in messages and are
  left out.
\<close>

record t_abootimg =
  img_size :: u32
  is_blkdev :: bool
  kernel_fname :: "string option"
  ramdisk_fname :: "string option"
  second_fname :: "string option"
  dtbs_fname :: "string option"
  stream :: stream_t
  header :: boot_img_hdr
  kernel :: "byte list option"
  ramdisk :: "byte list option"
  second :: "byte list option"
  dtbh :: "byte list option"
  dtbs :: "dtb_ptr list"
  signature :: "byte list"

section \<open>Reading and checking the header\<close>

text \<open>
  \<^verbatim>\<open>check_boot_img_header\<close> returns 1 for a header it refuses and 0 otherwise.
  \<^verbatim>\<open>strncmp\<close> over the eight bytes of the magic, none of which is NUL in \<^verbatim>\<open>BOOT_MAGIC\<close>,
  is 0 exactly when the eight bytes are equal.
\<close>

definition check_boot_img_header :: "t_abootimg \<Rightarrow> int" where
  "check_boot_img_header img =
     (let h = header img in
      if fixed 8 (magic h) \<noteq> BOOT_MAGIC then 1
      else if kernel_size h = 0 then 1
      else if ramdisk_size h = 0 then 1
      else let psize = page_size h in
        if psize = 0 then 1
        else let n_pages = pages (kernel_size h) psize;
                 m_pages = pages (ramdisk_size h) psize;
                 o_pages = pages (second_size h) psize;
                 p_pages = pages (dtbs_size h) psize;
                 total = (1 + n_pages + m_pages + o_pages + p_pages) * psize
             in if total > img_size img then 1 else 0)"

text \<open>
  \<^verbatim>\<open>read_header\<close>: the struct is read from the stream, the size of the container is
  measured (\<^verbatim>\<open>st_size\<close> or the capacity of the device, stored in an \<^verbatim>\<open>unsigned\<close>), and the
  header is checked.
\<close>

definition read_header :: "t_abootimg \<Rightarrow> error + t_abootimg" where
  "read_header img =
     (case fread (stream img) sizeof_hdr of
        None \<Rightarrow> Inl IoError
      | Some (b, f) \<Rightarrow>
          let img' = img\<lparr>header := hdr_of_bytes b, stream := f,
                         img_size := word_of_nat (length (contents f)),
                         is_blkdev := blockdev f\<rparr>
          in if check_boot_img_header img' \<noteq> 0 then Inl FormatError else Inr img')"


section \<open>Loading the sections: \<^verbatim>\<open>update_images\<close>\<close>

text \<open>
  A replacement file is opened, its size taken from \<^verbatim>\<open>fstat\<close> into an \<^verbatim>\<open>unsigned\<close>, and
  that many bytes are read with one \<^verbatim>\<open>fread\<close>, which fails on an empty file.
\<close>

definition read_file :: "files \<Rightarrow> string \<Rightarrow> error + (u32 \<times> byte list)" where
  "read_file fs fname =
     (case fs fname of
        None \<Rightarrow> Inl IoError
      | Some c \<Rightarrow>
          let sz = (word_of_nat (length c) :: u32)
          in if sz = 0 then Inl IoError else Inr (sz, take (unat sz) c))"

text \<open>Copying a section forward: \<^verbatim>\<open>fseek\<close> to its offset in the image, \<^verbatim>\<open>fread\<close> its size.\<close>

definition copy_section :: "stream_t \<Rightarrow> u32 \<Rightarrow> u32 \<Rightarrow> error + (byte list \<times> stream_t)" where
  "copy_section f off sz =
     (case fread (fseek f (unat off)) (unat sz) of
        None \<Rightarrow> Inl IoError
      | Some r \<Rightarrow> Inr r)"

definition load_kernel :: "files \<Rightarrow> t_abootimg \<Rightarrow> error + t_abootimg" where
  "load_kernel fs img =
     (case kernel_fname img of
        Some fname \<Rightarrow>
          ebind (read_file fs fname) (\<lambda>(ksize, k).
            Inr (img\<lparr>header := (header img)\<lparr>kernel_size := ksize\<rparr>, kernel := Some k\<rparr>))
      | None \<Rightarrow> Inr img)"

definition load_ramdisk :: "files \<Rightarrow> u32 \<Rightarrow> u32 \<Rightarrow> t_abootimg \<Rightarrow> error + t_abootimg" where
  "load_ramdisk fs rsize roff img =
     (case ramdisk_fname img of
        Some fname \<Rightarrow>
          ebind (read_file fs fname) (\<lambda>(rsize', r).
            Inr (img\<lparr>header := (header img)\<lparr>ramdisk_size := rsize'\<rparr>, ramdisk := Some r\<rparr>))
      | None \<Rightarrow>
          if kernel img \<noteq> None then
            ebind (copy_section (stream img) roff rsize) (\<lambda>(r, f).
              Inr (img\<lparr>stream := f, ramdisk := Some r\<rparr>))
          else Inr img)"

definition load_second :: "files \<Rightarrow> u32 \<Rightarrow> u32 \<Rightarrow> t_abootimg \<Rightarrow> error + t_abootimg" where
  "load_second fs ssize soff img =
     (case second_fname img of
        Some fname \<Rightarrow>
          ebind (read_file fs fname) (\<lambda>(ssize', s).
            Inr (img\<lparr>header := (header img)\<lparr>second_size := ssize'\<rparr>, second := Some s\<rparr>))
      | None \<Rightarrow>
          if ramdisk img \<noteq> None \<and> second_size (header img) \<noteq> 0 then
            ebind (copy_section (stream img) soff ssize) (\<lambda>(s, f).
              Inr (img\<lparr>stream := f, second := Some s\<rparr>))
          else Inr img)"

text \<open>The decimal digits that \<^verbatim>\<open>%d\<close> prints for the entry index.\<close>

fun dec :: "nat \<Rightarrow> string" where
  "dec n = (if n < 10 then [''0123456789'' ! n]
            else dec (n div 10) @ [''0123456789'' ! (n mod 10)])"

declare dec.simps [simp del]

text \<open>
  One turn of the loop over the replacement sub-blobs. The state is the table's buffer
  \<open>d\<close>, the pointer table filled so far and the running page count \<open>p\<close>. The entry is
  read (for the message) and written in place, so it has to lie inside the buffer. The
  size of the sub-blob is a 64-bit \<^verbatim>\<open>st_size\<close>: it is cut to 32 bits when stored in
  \<^verbatim>\<open>dtb_size\<close>, and \<^verbatim>\<open>(st.st_size + page_size - 1) / page_size\<close> is computed in 64 bits
  before it is added to the 32-bit \<open>p\<close>.
\<close>

definition load_dtb ::
  "files \<Rightarrow> string \<Rightarrow> u32 \<Rightarrow> nat \<Rightarrow> byte list \<times> dtb_ptr list \<times> u32
     \<Rightarrow> error + byte list \<times> dtb_ptr list \<times> u32" where
  "load_dtb fs fname psize ientry st =
     (case st of (d, tbl, p) \<Rightarrow>
        if length d < dt_entry ientry + 28 then Inl BufferOverrun
        else case fs (fname @ ''.dtb_p'' @ dec ientry) of
          None \<Rightarrow> Inl IoError
        | Some dp \<Rightarrow>
            if dp = [] then Inl IoError
            else Inr (set32 (set32 d (dt_entry ientry + 20) (p * psize))
                        (dt_entry ientry + 24) (word_of_nat (length dp)),
                      tbl @ [Buf dp],
                      p + word_of_nat (ceil_div (length dp) (unat psize))))"

fun load_dtb_loop ::
  "files \<Rightarrow> string \<Rightarrow> u32 \<Rightarrow> nat list \<Rightarrow> byte list \<times> dtb_ptr list \<times> u32
     \<Rightarrow> error + byte list \<times> dtb_ptr list \<times> u32" where
  "load_dtb_loop fs fname psize [] st = Inr st"
| "load_dtb_loop fs fname psize (ientry # rest) st =
     ebind (load_dtb fs fname psize ientry st) (load_dtb_loop fs fname psize rest)"

text \<open>
  When the table is copied from the image, the pointer table is filled with
  \<^verbatim>\<open>d + dt[ientry].offset\<close>.
\<close>

fun dtb_ptrs :: "byte list \<Rightarrow> nat list \<Rightarrow> error + dtb_ptr list" where
  "dtb_ptrs d [] = Inr []"
| "dtb_ptrs d (ientry # rest) =
     (if length d < dt_entry ientry + 24 then Inl BufferOverrun
      else ebind (dtb_ptrs d rest) (\<lambda>tbl. Inr (InDtbh (unat (dt_offset d ientry)) # tbl)))"

text \<open>
  The table: from \<^verbatim>\<open><dtbs>.dtbh\<close> and \<^verbatim>\<open><dtbs>.dtb_p<i>\<close> when a name is given, copied
  from the image when the header has a \<^verbatim>\<open>dtbs_size\<close>. The replacement table is read
  into a zeroed buffer of one page (\<^verbatim>\<open>calloc(page_size,1)\<close>), which a longer file
  overruns. \<^verbatim>\<open>num_entries\<close> does not change in the loop, whose writes start at byte 32.
\<close>

definition load_dtbs ::
  "files \<Rightarrow> u32 \<Rightarrow> u32 \<Rightarrow> u32 \<Rightarrow> t_abootimg \<Rightarrow> error + t_abootimg" where
  "load_dtbs fs psize dsize doff img =
     (case dtbs_fname img of
        Some fname \<Rightarrow>
          (case fs (fname @ ''.dtbh'') of
             None \<Rightarrow> Inl IoError
           | Some c \<Rightarrow>
               let dsize' = (word_of_nat (length c) :: u32)
               in if dsize' = 0 then Inl IoError
                  else if psize < dsize' then Inl BufferOverrun
                  else
                    let d = take (unat dsize') c @ replicate (unat psize - unat dsize') 0
                    in if length d < 12 then Inl BufferOverrun
                       else ebind (load_dtb_loop fs fname psize [0..<unat (num_entries d)]
                                     (d, [], 1))
                              (\<lambda>(d', tbl, p).
                                 Inr (img\<lparr>header := (header img)\<lparr>dtbs_size := p * psize\<rparr>,
                                          dtbh := Some d', dtbs := tbl\<rparr>)))
      | None \<Rightarrow>
          if dtbs_size (header img) \<noteq> 0 then
            ebind (copy_section (stream img) doff dsize) (\<lambda>(d, f).
              if length d < 12 then Inl BufferOverrun
              else ebind (dtb_ptrs d [0..<unat (num_entries d)]) (\<lambda>tbl.
                     Inr (img\<lparr>stream := f, dtbh := Some d, dtbs := tbl\<rparr>)))
          else Inr img)"

text \<open>\<^verbatim>\<open>memcpy(img->signature, "SEANDROIDENFORCE", sizeof("SEANDROIDENFORCE"));\<close>\<close>

definition set_signature :: "t_abootimg \<Rightarrow> t_abootimg" where
  "set_signature img =
     img\<lparr>signature := cstr ''SEANDROIDENFORCE'' @ [0] @ drop 17 (fixed 255 (signature img))\<rparr>"

text \<open>The end of \<^verbatim>\<open>update_images\<close>: the size of the image against the container.\<close>

definition check_size :: "u32 \<Rightarrow> t_abootimg \<Rightarrow> error + t_abootimg" where
  "check_size psize img =
     (let h = header img;
          total = total_size psize (kernel_size h) (ramdisk_size h) (second_size h) (dtbs_size h)
      in if img_size img = 0 then Inr (img\<lparr>img_size := total\<rparr>)
         else if total > img_size img then Inl CapacityError
         else Inr img)"

text \<open>
  The part of \<^verbatim>\<open>update_images\<close> before the size is checked. The page size, the sizes and
  the three offsets are those of the header as it is on entry.
\<close>

definition load_sections :: "files \<Rightarrow> t_abootimg \<Rightarrow> error + t_abootimg" where
  "load_sections fs img =
     (let psize = page_size (header img);
          ksize = kernel_size (header img);
          rsize = ramdisk_size (header img);
          ssize = second_size (header img);
          dsize = dtbs_size (header img)
      in if psize = 0 then Inl FormatError
         else
           ebind (load_kernel fs img) (\<lambda>img1.
           ebind (load_ramdisk fs rsize (roffset psize ksize) img1) (\<lambda>img2.
           ebind (load_second fs ssize (soffset psize ksize rsize) img2) (\<lambda>img3.
           ebind (load_dtbs fs psize dsize (doffset psize ksize rsize ssize) img3) (\<lambda>img4.
           Inr (set_signature img4))))))"

definition update_images :: "files \<Rightarrow> t_abootimg \<Rightarrow> error + t_abootimg" where
  "update_images fs img =
     ebind (load_sections fs img) (check_size (page_size (header img)))"

section \<open>Writing the image: \<^verbatim>\<open>write_bootimg\<close>\<close>

text \<open>
  \<^verbatim>\<open>fwrite(buf, size, 1, stream)\<close> from a buffer of known length: reading \<open>size\<close> bytes
  from a shorter buffer has no defined behaviour.
\<close>

definition fwrite_buf :: "stream_t \<Rightarrow> byte list \<Rightarrow> nat \<Rightarrow> error + stream_t" where
  "fwrite_buf f buf n =
     (if length buf < n then Inl BufferOverrun else Inr (fwrite f (take n buf)))"

text \<open>\<^verbatim>\<open>padding = calloc(psize, 1);\<close>\<close>

definition padding :: "u32 \<Rightarrow> byte list" where
  "padding psize = replicate (unat psize) 0"

text \<open>
  The header and its padding. \<^verbatim>\<open>psize - sizeof(img->header)\<close> is a \<^verbatim>\<open>size_t\<close>: the
  difference is taken modulo \<open>2 ^ 64\<close>.
\<close>

definition write_header :: "t_abootimg \<Rightarrow> stream_t \<Rightarrow> error + stream_t" where
  "write_header img f =
     (let psize = page_size (header img)
      in ebind (fwrite_buf (fseek f 0) (hdr_bytes (header img)) sizeof_hdr) (\<lambda>f1.
           fwrite_buf f1 (padding psize) ((unat psize + 2 ^ 64 - sizeof_hdr) mod 2 ^ 64)))"

text \<open>
  A section and its padding, as written for the kernel, the ramdisk and the second
  stage: \<^verbatim>\<open>fwrite(buf, size, 1, ...); fwrite(padding, psize - (size % psize), 1, ...);\<close>
\<close>

definition write_padded :: "stream_t \<Rightarrow> byte list \<Rightarrow> u32 \<Rightarrow> u32 \<Rightarrow> error + stream_t" where
  "write_padded f buf sz psize =
     ebind (fwrite_buf f buf (unat sz)) (\<lambda>f1.
       fwrite_buf f1 (padding psize) (unat (psize - sz mod psize)))"

definition write_kernel :: "t_abootimg \<Rightarrow> stream_t \<Rightarrow> error + stream_t" where
  "write_kernel img f =
     (case kernel img of
        Some k \<Rightarrow> write_padded f k (kernel_size (header img)) (page_size (header img))
      | None \<Rightarrow> Inr f)"

definition write_ramdisk :: "t_abootimg \<Rightarrow> stream_t \<Rightarrow> error + stream_t" where
  "write_ramdisk img f =
     (let h = header img; psize = page_size h
      in case ramdisk img of
           Some r \<Rightarrow>
             write_padded (fseek f (unat (roffset psize (kernel_size h)))) r (ramdisk_size h) psize
         | None \<Rightarrow> Inr f)"

text \<open>
  The second stage is written when the header has a \<^verbatim>\<open>second_size\<close>, whether or not
  \<^verbatim>\<open>img->second\<close> was set.
\<close>

definition write_second :: "t_abootimg \<Rightarrow> stream_t \<Rightarrow> error + stream_t" where
  "write_second img f =
     (let h = header img; psize = page_size h
      in if second_size h \<noteq> 0 then
           (case second img of
              None \<Rightarrow> Inl NullPointer
            | Some s \<Rightarrow>
                write_padded (fseek f (unat (soffset psize (kernel_size h) (ramdisk_size h))))
                  s (second_size h) psize)
         else Inr f)"

text \<open>
  One sub-blob of the table: its bytes, then padding only when its size is not a whole
  number of pages.
\<close>

definition write_dtb ::
  "byte list \<Rightarrow> dtb_ptr list \<Rightarrow> u32 \<Rightarrow> nat \<Rightarrow> stream_t \<Rightarrow> error + stream_t" where
  "write_dtb d tbl psize ientry f =
     (if length d < dt_entry ientry + 28 \<or> length tbl \<le> ientry then Inl BufferOverrun
      else
        let sz = dt_dtb_size d ientry
        in ebind (case tbl ! ientry of
                    Buf dp \<Rightarrow> fwrite_buf f dp (unat sz)
                  | InDtbh off \<Rightarrow> fwrite_buf f (drop off d) (unat sz))
             (\<lambda>f1. if sz mod psize > 0
                    then fwrite_buf f1 (padding psize) (unat (psize - sz mod psize))
                    else Inr f1))"

fun write_dtb_loop ::
  "byte list \<Rightarrow> dtb_ptr list \<Rightarrow> u32 \<Rightarrow> nat list \<Rightarrow> stream_t \<Rightarrow> error + stream_t" where
  "write_dtb_loop d tbl psize [] f = Inr f"
| "write_dtb_loop d tbl psize (ientry # rest) f =
     ebind (write_dtb d tbl psize ientry f) (write_dtb_loop d tbl psize rest)"

definition write_dtbs :: "t_abootimg \<Rightarrow> stream_t \<Rightarrow> error + stream_t" where
  "write_dtbs img f =
     (let h = header img; psize = page_size h
      in case dtbh img of
           Some d \<Rightarrow>
             ebind (fwrite_buf
                      (fseek f (unat (doffset psize (kernel_size h) (ramdisk_size h)
                                        (second_size h))))
                      d (unat psize)) (\<lambda>f1.
               if length d < 12 then Inl BufferOverrun
               else write_dtb_loop d (dtbs img) psize [0..<unat (num_entries d)] f1)
         | None \<Rightarrow> Inr f)"

text \<open>
  The signature: 255 bytes and \<^verbatim>\<open>psize - (sizeof(img->signature) % psize)\<close> bytes of
  padding, a \<^verbatim>\<open>size_t\<close> between 1 and \<open>psize\<close>.
\<close>

definition write_signature :: "t_abootimg \<Rightarrow> stream_t \<Rightarrow> error + stream_t" where
  "write_signature img f =
     (let h = header img; psize = page_size h
      in ebind (fwrite_buf
                  (fseek f (unat (signature_offset psize (kernel_size h) (ramdisk_size h)
                                    (second_size h) (dtbs_size h))))
                  (fixed 255 (signature img)) 255) (\<lambda>f1.
           fwrite_buf f1 (padding psize) (unat psize - 255 mod unat psize)))"

text \<open>
  The page counts are computed first; with a null page size that is a division by zero
  before anything is written.
\<close>

definition write_bootimg :: "t_abootimg \<Rightarrow> error + stream_t" where
  "write_bootimg img =
     (if page_size (header img) = 0 then Inl DivByZero
      else
        ebind (write_header img (stream img)) (\<lambda>f1.
        ebind (write_kernel img f1) (\<lambda>f2.
        ebind (write_ramdisk img f2) (\<lambda>f3.
        ebind (write_second img f3) (\<lambda>f4.
        ebind (write_dtbs img f4) (\<lambda>f5.
        write_signature img f5))))))"

section \<open>Extraction\<close>

text \<open>
  Each function seeks to the section, reads it and writes the bytes to a file of its
  own; the model returns the bytes. \<^verbatim>\<open>extract_second\<close> returns without a file when the
  header has no second stage. The page counts are divisions by the page size, which
  \<^verbatim>\<open>read_header\<close> has checked before an extraction.
\<close>

definition extract_kernel :: "t_abootimg \<Rightarrow> error + byte list" where
  "extract_kernel img =
     (let h = header img
      in case fread (fseek (stream img) (unat (koffset (page_size h)))) (unat (kernel_size h)) of
           None \<Rightarrow> Inl IoError
         | Some (k, f) \<Rightarrow> Inr k)"

definition extract_ramdisk :: "t_abootimg \<Rightarrow> error + byte list" where
  "extract_ramdisk img =
     (let h = header img
      in if page_size h = 0 then Inl DivByZero
         else case fread (fseek (stream img) (unat (roffset (page_size h) (kernel_size h))))
                    (unat (ramdisk_size h)) of
                None \<Rightarrow> Inl IoError
              | Some (r, f) \<Rightarrow> Inr r)"

definition extract_second :: "t_abootimg \<Rightarrow> error + byte list option" where
  "extract_second img =
     (let h = header img
      in if second_size h = 0 then Inr None
         else if page_size h = 0 then Inl DivByZero
         else case fread (fseek (stream img)
                      (unat (extract_second_soffset (page_size h) (kernel_size h)
                               (ramdisk_size h))))
                    (unat (second_size h)) of
                None \<Rightarrow> Inl IoError
              | Some (s, f) \<Rightarrow> Inr (Some s))"

section \<open>The update and create commands\<close>

text \<open>
  How a run ends: aborted by \<^verbatim>\<open>abort_perror\<close> or \<^verbatim>\<open>abort_printf\<close> before the writer was
  called, with the bytes of the target as they are then; stopped inside the writer at a
  place without defined behaviour; or written, with the bytes of the target.
\<close>

datatype run_result = Aborted error "byte list" | Crashed error | Written "byte list"

text \<open>
  \<^verbatim>\<open>case update:\<close> of \<^verbatim>\<open>main\<close>, from the image as \<^verbatim>\<open>read_header\<close> and \<^verbatim>\<open>update_header\<close>
  leave it: \<^verbatim>\<open>update_images(bootimg); write_bootimg(bootimg);\<close>
\<close>

definition cmd_update :: "files \<Rightarrow> t_abootimg \<Rightarrow> run_result" where
  "cmd_update fs img =
     (case update_images fs img of
        Inl e \<Rightarrow> Aborted e (contents (stream img))
      | Inr img1 \<Rightarrow>
          (case write_bootimg img1 of
             Inl e \<Rightarrow> Crashed e
           | Inr f \<Rightarrow> Written (contents f)))"

text \<open>
  \<^verbatim>\<open>case create:\<close> of \<^verbatim>\<open>main\<close>. Without a kernel and a ramdisk name the usage text is
  printed and nothing else happens. Otherwise, from the image as
  \<^verbatim>\<open>open_bootimg(bootimg, "w")\<close> and \<^verbatim>\<open>update_header\<close> leave it: \<^verbatim>\<open>update_images\<close>, then
  \<^verbatim>\<open>check_boot_img_header\<close>, then \<^verbatim>\<open>write_bootimg\<close>. The stream of a creation is opened
  for writing only; its header comes from \<^verbatim>\<open>new_bootimg\<close> with sizes 0, so that
  \<^verbatim>\<open>update_images\<close> has nothing to copy from it.
\<close>

definition cmd_create :: "files \<Rightarrow> t_abootimg \<Rightarrow> run_result" where
  "cmd_create fs img =
     (if kernel_fname img = None \<or> ramdisk_fname img = None
      then Aborted UsageError (contents (stream img))
      else case update_images fs img of
        Inl e \<Rightarrow> Aborted e (contents (stream img))
      | Inr img1 \<Rightarrow>
          if check_boot_img_header img1 \<noteq> 0 then Aborted FormatError (contents (stream img))
          else (case write_bootimg img1 of
                  Inl e \<Rightarrow> Crashed e
                | Inr f \<Rightarrow> Written (contents f)))"


section \<open>Fresh images and image files\<close>

text \<open>
  \<^verbatim>\<open>new_bootimg\<close> returns a zeroed \<^verbatim>\<open>t_abootimg\<close> with the magic and a page size of 2048
  in its header. The image below is that one after \<^verbatim>\<open>parse_args\<close> has cleared the file
  names, as it does for an update or a creation, and \<^verbatim>\<open>open_bootimg\<close> has opened the
  stream.
\<close>

definition new_hdr :: boot_img_hdr where
  "new_hdr =
     \<lparr>magic = BOOT_MAGIC, kernel_size = 0, kernel_addr = 0, ramdisk_size = 0, ramdisk_addr = 0,
      second_size = 0, second_addr = 0, tags_addr = 0, page_size = 2048, dtbs_size = 0,
      unused = 0, name = replicate 16 0, cmdline = replicate 512 0, hdr_id = replicate 8 0\<rparr>"

definition new_bootimg :: "stream_t \<Rightarrow> t_abootimg" where
  "new_bootimg f =
     \<lparr>img_size = 0, is_blkdev = False,
      kernel_fname = None, ramdisk_fname = None, second_fname = None, dtbs_fname = None,
      stream = f, header = new_hdr,
      kernel = None, ramdisk = None, second = None, dtbh = None, dtbs = [],
      signature = replicate 255 0\<rparr>"

text \<open>A regular file that starts with the bytes of a header, freshly opened.\<close>

definition image_file :: "boot_img_hdr \<Rightarrow> byte list \<Rightarrow> stream_t" where
  "image_file h rest = \<lparr>contents = hdr_bytes h @ rest, pos = 0, blockdev = False\<rparr>"

text \<open>A header for pages of 2048 bytes, a kernel of one byte and a ramdisk of one byte.\<close>

definition small_hdr :: boot_img_hdr where
  "small_hdr = new_hdr\<lparr>kernel_size := 1, ramdisk_size := 1, second_size := 0,
     page_size := 2048, dtbs_size := 0\<rparr>"

text \<open>A header page followed by nothing, and a kernel of exactly one page to write after it.\<close>

definition page_kernel_img :: t_abootimg where
  "page_kernel_img =
     (new_bootimg \<lparr>contents = replicate 2048 0, pos = 2048, blockdev = False\<rparr>)
       \<lparr>header := new_hdr\<lparr>kernel_size := 2048\<rparr>, kernel := Some (replicate 2048 1)\<rparr>"

section \<open>Notions used in the statements and proofs\<close>

text \<open>
  \<open>keeps q f f'\<close>: the stream \<open>f'\<close> has the first \<open>q\<close> bytes of \<open>f\<close>, and at least \<open>q\<close>
  bytes, and stands at or after \<open>q\<close>.
\<close>

definition keeps :: "nat \<Rightarrow> stream_t \<Rightarrow> stream_t \<Rightarrow> bool" where
  "keeps q f f' \<longleftrightarrow>
     q \<le> pos f' \<and> q \<le> length (contents f') \<and> take q (contents f') = take q (contents f)"

section \<open>Images used as examples\<close>

text \<open>
  The image that \<^verbatim>\<open>read_header\<close> leaves for a file that starts with the bytes of the
  header \<open>h\<close> and contains \<open>rest\<close> after them.
\<close>

definition opened_img :: "boot_img_hdr \<Rightarrow> byte list \<Rightarrow> t_abootimg" where
  "opened_img h rest =
     (new_bootimg (image_file h rest))
       \<lparr>header := h, stream := (image_file h rest)\<lparr>pos := sizeof_hdr\<rparr>,
        img_size := word_of_nat (length (hdr_bytes h @ rest)), is_blkdev := False\<rparr>"

text \<open>The header \<open>small_hdr\<close> with a device tree table of one page.\<close>

definition dtb_hdr :: boot_img_hdr where
  "dtb_hdr = new_hdr\<lparr>kernel_size := 1, ramdisk_size := 1, second_size := 0,
     page_size := 2048, dtbs_size := 2048\<rparr>"

text \<open>The pages that a list of sub-blobs takes, each rounded up on its own.\<close>

abbreviation blob_pages :: "u32 \<Rightarrow> byte list list \<Rightarrow> nat" where
  "blob_pages psize bs \<equiv> sum_list (map (\<lambda>b. ceil_div (length b) (unat psize)) bs)"

text \<open>
  A table file \<^verbatim>\<open><dtbs>.dtbh\<close> with \<open>n\<close> zeroed entries, an update of a 16384-byte image
  that names the table \<^verbatim>\<open>platform\<close>, and two sets of files for it: a table of one
  sub-blob of \<open>2 ^ 32\<close> bytes, and a table of two sub-blobs of 3000 bytes and 1 byte,
  with the buffer that the update leaves for the latter.
\<close>

definition dtb_table :: "u32 \<Rightarrow> byte list" where
  "dtb_table n = le32 0x48425444 @ le32 2 @ le32 n @ replicate (32 * unat n) 0"

definition dtb_update_img :: t_abootimg where
  "dtb_update_img = (opened_img small_hdr (replicate 15776 0))\<lparr>dtbs_fname := Some ''platform''\<rparr>"

definition huge_blob_files :: files where
  "huge_blob_files =
     [''platform.dtbh'' \<mapsto> dtb_table 1, ''platform.dtb_p0'' \<mapsto> replicate 4294967296 0]"

definition two_blob_files :: files where
  "two_blob_files =
     [''platform.dtbh'' \<mapsto> dtb_table 2, ''platform.dtb_p0'' \<mapsto> replicate 3000 1,
      ''platform.dtb_p1'' \<mapsto> [2]]"

definition two_blob_table :: "byte list" where
  "two_blob_table =
     set32 (set32 (set32 (set32 (dtb_table 2 @ replicate 1972 0)
       (dt_entry 0 + 20) 2048) (dt_entry 0 + 24) 3000)
       (dt_entry 1 + 20) 6144) (dt_entry 1 + 24) 1"

text \<open>The bytes that a finished run has written, if it has.\<close>

definition written :: "run_result \<Rightarrow> byte list option" where
  "written r = (case r of Written c \<Rightarrow> Some c | Aborted e c \<Rightarrow> None | Crashed e \<Rightarrow> None)"

text \<open>
  \<open>layout_fits h\<close>: the whole layout of the header \<open>h\<close>, with its signature page and the
  page counts rounded up, is below \<open>2 ^ 32\<close>, so that none of the 32-bit computations of
  counts and offsets wraps.
\<close>

definition layout_fits :: "boot_img_hdr \<Rightarrow> bool" where
  "layout_fits h \<longleftrightarrow>
     (2 + ceil_div (unat (kernel_size h)) (unat (page_size h))
        + ceil_div (unat (ramdisk_size h)) (unat (page_size h))
        + ceil_div (unat (second_size h)) (unat (page_size h))
        + ceil_div (unat (dtbs_size h)) (unat (page_size h))) * unat (page_size h) < 2 ^ 32"

text \<open>
  An image of five pages (header, a kernel starting with the byte 75, a ramdisk starting
  with the byte 82, and two more pages), opened for an update that names the kernel
  \<^verbatim>\<open>zImage\<close>; and the files of a run in which \<^verbatim>\<open>zImage\<close> holds \<open>k\<close>.
\<close>

definition kernel_update_img :: t_abootimg where
  "kernel_update_img =
     (opened_img small_hdr
        (replicate 1440 0 @ [75] @ replicate 2047 0 @ [82] @ replicate 2047 0 @ replicate 4096 0))
       \<lparr>kernel_fname := Some ''zImage''\<rparr>"

definition new_kernel_files :: "byte list \<Rightarrow> files" where
  "new_kernel_files k = [''zImage'' \<mapsto> k]"

text \<open>
  A creation from three one-byte files with the default page size: the image that
  \<^verbatim>\<open>main\<close> hands to \<^verbatim>\<open>update_images\<close>, the files, the header that results, the bytes
  of the image file that results, and that file opened again for an extraction.
\<close>

definition create_img :: t_abootimg where
  "create_img =
     (new_bootimg \<lparr>contents = [], pos = 0, blockdev = False\<rparr>)
       \<lparr>kernel_fname := Some ''zImage'', ramdisk_fname := Some ''initrd.gz'',
        second_fname := Some ''stage2.img''\<rparr>"

definition create_files :: files where
  "create_files = [''zImage'' \<mapsto> [75], ''initrd.gz'' \<mapsto> [82], ''stage2.img'' \<mapsto> [83]]"

definition created_hdr :: boot_img_hdr where
  "created_hdr = new_hdr\<lparr>kernel_size := 1, ramdisk_size := 1, second_size := 1,
     page_size := 2048, dtbs_size := 0\<rparr>"

definition created_bytes :: "byte list" where
  "created_bytes =
     hdr_bytes created_hdr @ replicate 1440 0 @ [75] @ replicate 2047 0 @ [82] @ replicate 2047 0
       @ [83] @ replicate 2047 0 @ cstr ''SEANDROIDENFORCE'' @ replicate 239 0 @ replicate 1793 0"

definition reopen :: "byte list \<Rightarrow> t_abootimg" where
  "reopen c = new_bootimg \<lparr>contents = c, pos = 0, blockdev = False\<rparr>"

section \<open>Arithmetic of the layout\<close>

lemma unat_of_nat32: "x < 2 ^ 32 \<Longrightarrow> unat (word_of_nat x :: u32) = x"
  by (simp add: unat_of_nat)

lemma unat_round_up:
  fixes sz ps :: u32
  assumes "0 < unat ps" and "unat sz + unat ps - 1 < 2 ^ 32"
  shows "unat (sz + ps - 1) = unat sz + unat ps - 1"
proof -
  have "sz + ps - 1 = word_of_nat (unat sz + unat ps - 1)"
    using assms(1) by (simp add: of_nat_diff)
  then show ?thesis
    using assms(2) by (simp only: unat_of_nat32)
qed

lemma pages_exact:
  assumes "0 < unat ps" and "unat sz + unat ps - 1 < 2 ^ 32"
  shows "unat (pages sz ps) = ceil_div (unat sz) (unat ps)"
  using unat_round_up [OF assms] by (simp add: pages_def unat_div)

lemma ceil_div_mult_ge: "0 < b \<Longrightarrow> a \<le> ceil_div a b * b"
proof -
  assume b: "0 < b"
  have "a + b - 1 = ceil_div a b * b + (a + b - 1) mod b"
    by simp
  moreover have "(a + b - 1) mod b < b"
    using b by simp
  ultimately show ?thesis
    by linarith
qed

lemma unat_offset:
  fixes c ps :: u32
  assumes "c = word_of_nat x" and "x * unat ps < 2 ^ 32"
  shows "unat (c * ps) = x * unat ps"
proof -
  have "c * ps = word_of_nat (x * unat ps)"
    by (simp add: assms(1))
  then show ?thesis
    using assms(2) by (simp only: unat_of_nat32)
qed

lemma pages_zero: "0 < ps \<Longrightarrow> pages 0 ps = 0"
proof -
  assume "0 < ps"
  then have ps: "0 < unat ps"
    by (simp add: word_less_nat_alt)
  have "unat (0::u32) + unat ps - 1 < 2 ^ 32"
    using unsigned_less [of ps, where ?'a = nat] by simp
  from pages_exact [OF ps this] have "unat (pages 0 ps) = 0"
    using ps by simp
  then show ?thesis
    by (simp add: unat_eq_0)
qed

lemma ceil_div_dvd: "0 < b \<Longrightarrow> b dvd a \<Longrightarrow> ceil_div a b = a div b"
proof -
  assume b: "0 < b" and d: "b dvd a"
  then obtain q where q: "a = q * b" by (auto simp: dvd_def)
  obtain c where c: "b = Suc c" using b by (cases b) auto
  have "a + b - 1 = c + q * b" by (simp add: q c)
  then have "ceil_div a b = (c + q * b) div b" by simp
  also have "\<dots> = q + c div b" using b by simp
  also have "\<dots> = q" by (simp add: c)
  finally show ?thesis using b by (simp add: q)
qed


lemma layout_exact:
  fixes ps k r s d :: u32
  assumes "0 < ps"
    and "(2 + ceil_div (unat k) (unat ps) + ceil_div (unat r) (unat ps)
            + ceil_div (unat s) (unat ps) + ceil_div (unat d) (unat ps)) * unat ps < 2 ^ 32"
  shows "unat (pages k ps) = ceil_div (unat k) (unat ps)
    \<and> unat (pages r ps) = ceil_div (unat r) (unat ps)
    \<and> unat (pages s ps) = ceil_div (unat s) (unat ps)
    \<and> unat (pages d ps) = ceil_div (unat d) (unat ps)
    \<and> pages 0 ps = 0
    \<and> unat (koffset ps) = unat ps
    \<and> unat (roffset ps k) = (1 + ceil_div (unat k) (unat ps)) * unat ps
    \<and> unat (soffset ps k r) =
        (1 + ceil_div (unat k) (unat ps) + ceil_div (unat r) (unat ps)) * unat ps
    \<and> unat (doffset ps k r s) =
        (1 + ceil_div (unat k) (unat ps) + ceil_div (unat r) (unat ps)
           + ceil_div (unat s) (unat ps)) * unat ps
    \<and> unat (signature_offset ps k r s d) =
        (1 + ceil_div (unat k) (unat ps) + ceil_div (unat r) (unat ps)
           + ceil_div (unat s) (unat ps) + ceil_div (unat d) (unat ps)) * unat ps
    \<and> unat (total_size ps k r s d) = unat (signature_offset ps k r s d) + unat ps"
proof -
  define P where "P = unat ps"
  define N where "N = ceil_div (unat k) P"
  define M where "M = ceil_div (unat r) P"
  define Q where "Q = ceil_div (unat s) P"
  define D where "D = ceil_div (unat d) P"
  have P: "0 < P"
    using assms(1) by (simp add: P_def word_less_nat_alt)
  have tot: "(2 + N + M + Q + D) * P < 2 ^ 32"
    using assms(2) by (simp add: P_def N_def M_def Q_def D_def)
  have fits: "x + P - 1 < 2 ^ 32" if "ceil_div x P + 1 \<le> 2 + N + M + Q + D" for x
  proof -
    have "x \<le> ceil_div x P * P"
      using P by (rule ceil_div_mult_ge)
    then have "x + P \<le> (ceil_div x P + 1) * P"
      by simp
    also have "\<dots> \<le> (2 + N + M + Q + D) * P"
      using that by (rule mult_le_mono1)
    finally show ?thesis
      using tot by linarith
  qed
  have n: "unat (pages k ps) = N"
    unfolding N_def P_def using P fits [of "unat k"]
    by (intro pages_exact) (simp_all add: P_def N_def)
  have m: "unat (pages r ps) = M"
    unfolding M_def P_def using P fits [of "unat r"]
    by (intro pages_exact) (simp_all add: P_def M_def)
  have o: "unat (pages s ps) = Q"
    unfolding Q_def P_def using P fits [of "unat s"]
    by (intro pages_exact) (simp_all add: P_def Q_def)
  have p: "unat (pages d ps) = D"
    unfolding D_def P_def using P fits [of "unat d"]
    by (intro pages_exact) (simp_all add: P_def D_def)
  have le: "x * P < 2 ^ 32" if "x \<le> 2 + N + M + Q + D" for x
  proof -
    have "x * P \<le> (2 + N + M + Q + D) * P"
      using that by (rule mult_le_mono1)
    then show ?thesis
      using tot by linarith
  qed
  have ro: "unat (roffset ps k) = (1 + N) * P"
    unfolding roffset_def P_def
    by (rule unat_offset) (use le [of "1 + N"] in \<open>simp_all add: P_def flip: n\<close>)
  have so: "unat (soffset ps k r) = (1 + N + M) * P"
    unfolding soffset_def P_def
    by (rule unat_offset) (use le [of "1 + N + M"] in \<open>simp_all add: P_def flip: n m\<close>)
  have dof: "unat (doffset ps k r s) = (1 + N + M + Q) * P"
    unfolding doffset_def P_def
    by (rule unat_offset) (use le [of "1 + N + M + Q"] in \<open>simp_all add: P_def flip: n m o\<close>)
  have sg: "unat (signature_offset ps k r s d) = (1 + N + M + Q + D) * P"
    unfolding signature_offset_def P_def
    by (rule unat_offset)
      (use le [of "1 + N + M + Q + D"] in \<open>simp_all add: P_def flip: n m o p\<close>)
  have ts: "unat (total_size ps k r s d) = (1 + N + M + Q + D + 1) * P"
    unfolding total_size_def P_def
    by (rule unat_offset)
      (use le [of "1 + N + M + Q + D + 1"] in \<open>simp_all add: P_def flip: n m o p\<close>)
  show ?thesis
    using n m o p ro so dof sg ts pages_zero [OF assms(1)]
    by (simp add: koffset_def P_def N_def M_def Q_def D_def)
qed

section \<open>The layout formulas\<close>

text \<open>
  Claim C2, as the code has it. The page counts and offsets of \<^verbatim>\<open>update_images\<close> and
  \<^verbatim>\<open>write_bootimg\<close> are 32-bit values. For a page size above 0 and sizes whose whole
  layout, \<open>(2 + n + m + o + p) * page_size\<close> with the rounded-up page counts, is below
  \<open>2 ^ 32\<close>: each count is the size divided by the page size and rounded up (0 for the
  size 0), the kernel starts at \<open>page_size\<close>, the ramdisk at \<open>(1 + n) * page_size\<close>, the
  second stage at \<open>(1 + n + m) * page_size\<close>, the table at \<open>(1 + n + m + o) * page_size\<close>,
  the signature at \<open>(1 + n + m + o + p) * page_size\<close>, and the total size is the offset of
  the signature plus one page.
\<close>

theorem layout_formulas:
  fixes ps k r s d :: u32
  assumes "0 < ps"
    and "(2 + ceil_div (unat k) (unat ps) + ceil_div (unat r) (unat ps)
            + ceil_div (unat s) (unat ps) + ceil_div (unat d) (unat ps)) * unat ps < 2 ^ 32"
  shows "unat (pages k ps) = ceil_div (unat k) (unat ps)
    \<and> unat (pages r ps) = ceil_div (unat r) (unat ps)
    \<and> unat (pages s ps) = ceil_div (unat s) (unat ps)
    \<and> unat (pages d ps) = ceil_div (unat d) (unat ps)
    \<and> pages 0 ps = 0
    \<and> unat (koffset ps) = unat ps
    \<and> unat (roffset ps k) = (1 + ceil_div (unat k) (unat ps)) * unat ps
    \<and> unat (soffset ps k r) =
        (1 + ceil_div (unat k) (unat ps) + ceil_div (unat r) (unat ps)) * unat ps
    \<and> unat (doffset ps k r s) =
        (1 + ceil_div (unat k) (unat ps) + ceil_div (unat r) (unat ps)
           + ceil_div (unat s) (unat ps)) * unat ps
    \<and> unat (signature_offset ps k r s d) =
        (1 + ceil_div (unat k) (unat ps) + ceil_div (unat r) (unat ps)
           + ceil_div (unat s) (unat ps) + ceil_div (unat d) (unat ps)) * unat ps
    \<and> unat (total_size ps k r s d) = unat (signature_offset ps k r s d) + unat ps"
  using assms by (rule layout_exact)


text \<open>
  The theorem at \<open>page_size = 2048\<close>, \<open>kernel = 9000\<close>, \<open>ramdisk = 500\<close>, no second stage and
  no table: 5 kernel pages, kernel at 2048, ramdisk at 12288, 16384 bytes in all.
\<close>

theorem layout_formulas_witness:
  "unat (pages 9000 2048) = 5 \<and> unat (koffset 2048) = 2048
   \<and> unat (roffset 2048 9000) = 12288 \<and> unat (total_size 2048 9000 500 0 0) = 16384"
proof -
  have "(0::u32) < 2048"
    by simp
  moreover have "(2 + ceil_div (unat (9000::u32)) (unat (2048::u32))
        + ceil_div (unat (500::u32)) (unat (2048::u32))
        + ceil_div (unat (0::u32)) (unat (2048::u32))
        + ceil_div (unat (0::u32)) (unat (2048::u32))) * unat (2048::u32) < 2 ^ 32"
    by simp
  ultimately have "unat (pages 9000 2048) = ceil_div (unat (9000::u32)) (unat (2048::u32))
    \<and> unat (pages 500 2048) = ceil_div (unat (500::u32)) (unat (2048::u32))
    \<and> unat (pages 0 2048) = ceil_div (unat (0::u32)) (unat (2048::u32))
    \<and> unat (pages 0 2048) = ceil_div (unat (0::u32)) (unat (2048::u32))
    \<and> pages 0 2048 = 0
    \<and> unat (koffset 2048) = unat (2048::u32)
    \<and> unat (roffset 2048 9000) =
        (1 + ceil_div (unat (9000::u32)) (unat (2048::u32))) * unat (2048::u32)
    \<and> unat (soffset 2048 9000 500) =
        (1 + ceil_div (unat (9000::u32)) (unat (2048::u32))
           + ceil_div (unat (500::u32)) (unat (2048::u32))) * unat (2048::u32)
    \<and> unat (doffset 2048 9000 500 0) =
        (1 + ceil_div (unat (9000::u32)) (unat (2048::u32))
           + ceil_div (unat (500::u32)) (unat (2048::u32))
           + ceil_div (unat (0::u32)) (unat (2048::u32))) * unat (2048::u32)
    \<and> unat (signature_offset 2048 9000 500 0 0) =
        (1 + ceil_div (unat (9000::u32)) (unat (2048::u32))
           + ceil_div (unat (500::u32)) (unat (2048::u32))
           + ceil_div (unat (0::u32)) (unat (2048::u32))
           + ceil_div (unat (0::u32)) (unat (2048::u32))) * unat (2048::u32)
    \<and> unat (total_size 2048 9000 500 0 0) =
        unat (signature_offset 2048 9000 500 0 0) + unat (2048::u32)"
    by (rule layout_formulas)
  then show ?thesis
    by simp
qed

text \<open>
  Without the bound the counts are not the rounded-up quotients: for a kernel size of
  \<open>2 ^ 32 - 1\<close> and pages of 2048 bytes, \<^verbatim>\<open>ksize + page_size - 1\<close> wraps to 2046 and the
  page count is 0.
\<close>

theorem layout_counterexample:
  "(0::u32) < 2048 \<and> unat (pages 4294967295 2048) \<noteq> ceil_div (unat (4294967295::u32)) (unat (2048::u32))"
  by (simp add: pages_def)

section \<open>The two formulas for the offset of the second stage\<close>

text \<open>
  Claim C7, as the code has it. The offset that \<^verbatim>\<open>extract_second\<close> computes from one
  page count for kernel and ramdisk together differs from the offset \<open>(1 + n + m) *
  page_size\<close> of \<^verbatim>\<open>update_images\<close> and \<^verbatim>\<open>write_bootimg\<close> for some page size above 0 and
  sizes that are both not multiples of it; and the two are equal for all sizes that are
  both multiples of the page size, provided \<^verbatim>\<open>rsize + ksize + psize - 1\<close> does not
  exceed 32 bits.
\<close>

theorem second_offset_formulas:
  "(\<exists>ps k r :: u32. 0 < ps \<and> k mod ps \<noteq> 0 \<and> r mod ps \<noteq> 0
       \<and> extract_second_soffset ps k r \<noteq> soffset ps k r)
   \<and> (\<forall>ps k r :: u32. 0 < ps \<and> k mod ps = 0 \<and> r mod ps = 0
         \<and> unat k + unat r + unat ps - 1 < 2 ^ 32
       \<longrightarrow> extract_second_soffset ps k r = soffset ps k r)"
proof (intro conjI allI impI)
  have "(0::u32) < 2048 \<and> (1::u32) mod 2048 \<noteq> 0 \<and> (1::u32) mod 2048 \<noteq> 0
      \<and> extract_second_soffset 2048 1 1 \<noteq> soffset 2048 1 1"
    by (simp add: extract_second_soffset_def soffset_def pages_def)
  then show "\<exists>ps k r :: u32. 0 < ps \<and> k mod ps \<noteq> 0 \<and> r mod ps \<noteq> 0
       \<and> extract_second_soffset ps k r \<noteq> soffset ps k r"
    by blast
next
  fix ps k r :: u32
  assume h: "0 < ps \<and> k mod ps = 0 \<and> r mod ps = 0 \<and> unat k + unat r + unat ps - 1 < 2 ^ 32"
  then have ps: "0 < unat ps"
    by (simp add: word_less_nat_alt)
  have dk: "unat ps dvd unat k" and dr: "unat ps dvd unat r"
    using h by (simp_all add: mod_eq_0_iff_dvd unat_mod_distrib flip: unat_eq_0 )
  have kr: "unat k + unat r < 2 ^ 32"
    using h ps by linarith
  then have ukr: "unat (r + k) = unat k + unat r"
    by (simp add: unat_word_ariths)
  have "unat ((r + k + ps - 1) div ps) = ceil_div (unat k + unat r) (unat ps)"
    using pages_exact [of ps "r + k"] ps h by (simp add: pages_def ukr)
  also have "\<dots> = unat k div unat ps + unat r div unat ps"
    using ceil_div_dvd [of "unat ps" "unat k + unat r"] ps dk dr
    by (simp add: div_add)
  also have "\<dots> = unat (pages k ps) + unat (pages r ps)"
  proof -
    have "unat k + unat ps - 1 < 2 ^ 32" and "unat r + unat ps - 1 < 2 ^ 32"
      using h by linarith+
    then show ?thesis
      using pages_exact [of ps k] pages_exact [of ps r] ps
        ceil_div_dvd [OF ps dk] ceil_div_dvd [OF ps dr] by simp
  qed
  finally have "unat ((r + k + ps - 1) div ps) = unat (pages k ps) + unat (pages r ps)" .
  moreover have "unat (pages k ps) + unat (pages r ps) < 2 ^ 32"
    using calculation unsigned_less [of "(r + k + ps - 1) div ps", where ?'a = nat] by simp
  ultimately have "(r + k + ps - 1) div ps = pages k ps + pages r ps"
    by (simp add: word_unat_eq_iff unat_word_ariths)
  then show "extract_second_soffset ps k r = soffset ps k r"
    by (simp add: extract_second_soffset_def soffset_def add.assoc)
qed


text \<open>The second part at pages of 2048 bytes, a kernel of one page and a ramdisk of two.\<close>

theorem second_offset_formulas_witness:
  "extract_second_soffset 2048 2048 4096 = soffset 2048 2048 4096"
proof -
  from second_offset_formulas
  have agree: "\<forall>ps k r. 0 < ps \<and> k mod ps = 0 \<and> r mod ps = 0
      \<and> unat k + unat r + unat ps - 1 < 2 ^ 32
      \<longrightarrow> extract_second_soffset ps k r = soffset ps k r"
    by (rule conjunct2)
  show ?thesis
    by (rule agree [rule_format]) simp
qed


text \<open>
  Without the bound two sizes that are multiples of the page size can give different
  offsets: with pages of 3 bytes, a kernel of 3 bytes and a ramdisk of \<open>2 ^ 32 - 4\<close> bytes,
  \<^verbatim>\<open>extract_second\<close> computes 3 and \<^verbatim>\<open>update_images\<close> computes 2.
\<close>

theorem second_offset_counterexample:
  "(0::u32) < 3 \<and> (3::u32) mod 3 = 0 \<and> (4294967292::u32) mod 3 = 0
   \<and> extract_second_soffset 3 3 4294967292 \<noteq> soffset 3 3 4294967292"
  by (simp add: extract_second_soffset_def soffset_def pages_def)

section \<open>The header as bytes\<close>

lemma length_le32 [simp]: "length (le32 w) = 4"
  by (simp add: le32_def)

lemma word_le32_le32 [simp]: "word_le32 (le32 w) = w"
proof (rule bit_word_eqI)
  fix n
  assume "n < LENGTH(32)"
  then consider "n < 8" | "8 \<le> n" "n < 16" | "16 \<le> n" "n < 24" | "24 \<le> n" "n < 32"
    by fastforce
  then show "bit (word_le32 (le32 w)) n \<longleftrightarrow> bit w n"
    by cases (auto simp add: word_le32_def le32_def bit_simps)
qed

lemma length_fixed [simp]: "length (fixed n xs) = n"
  by (simp add: fixed_def)

lemma fixed_id [simp]: "length xs = n \<Longrightarrow> fixed n xs = xs"
  by (simp add: fixed_def)

lemma get32_append_le32 [simp]:
  "length pre = off \<Longrightarrow> get32 (pre @ le32 w @ post) off = w"
  by (simp add: get32_def)

lemma get32_append: "length pre = off \<Longrightarrow> get32 (pre @ buf) (off + k) = get32 buf k"
  by (simp add: get32_def)

lemma get32_concat_le32: "i < length ws \<Longrightarrow> get32 (concat (map le32 ws)) (4 * i) = ws ! i"
proof (induction ws arbitrary: i)
  case Nil
  then show ?case by simp
next
  case (Cons w ws)
  show ?case
  proof (cases i)
    case 0
    then show ?thesis
      using get32_append_le32 [of "[]" 0 w "concat (map le32 ws)"] by simp
  next
    case (Suc j)
    then have "get32 (le32 w @ concat (map le32 ws)) (4 + 4 * j) = ws ! j"
      using Cons get32_append [of "le32 w" 4 "concat (map le32 ws)" "4 * j"] by simp
    then show ?thesis
      using Suc by simp
  qed
qed

lemma length_hdr_bytes [simp]: "length (hdr_bytes h) = sizeof_hdr"
  by (simp add: hdr_bytes_def sizeof_hdr_def length_concat comp_def sum_list_triv)

lemma list8: "length xs = 8 \<Longrightarrow> [xs ! 0, xs ! 1, xs ! 2, xs ! 3, xs ! 4, xs ! 5, xs ! 6, xs ! 7] = xs"
proof -
  assume len: "length xs = 8"
  have "[0..<8] = [0, 1, 2, 3, 4, 5, 6, 7::nat]"
    by code_simp
  moreover have "map ((!) xs) [0..<8] = xs"
    using map_nth [of xs] len by simp
  ultimately show ?thesis
    by simp
qed

lemma hdr_of_bytes_hdr_bytes:
  "hdr_of_bytes (hdr_bytes h) =
     h\<lparr>magic := fixed 8 (magic h), name := fixed 16 (name h),
       cmdline := fixed 512 (cmdline h), hdr_id := fixed 8 (hdr_id h)\<rparr>"
proof -
  define pre where "pre = fixed 8 (magic h) @ le32 (kernel_size h) @ le32 (kernel_addr h)
     @ le32 (ramdisk_size h) @ le32 (ramdisk_addr h)
     @ le32 (second_size h) @ le32 (second_addr h)
     @ le32 (tags_addr h) @ le32 (page_size h) @ le32 (dtbs_size h) @ le32 (unused h)
     @ fixed 16 (name h) @ fixed 512 (cmdline h)"
  have b: "hdr_bytes h = pre @ concat (map le32 (fixed 8 (hdr_id h)))"
    by (simp add: hdr_bytes_def pre_def)
  have lp: "length pre = 576"
    by (simp add: pre_def)
  have ids: "get32 (hdr_bytes h) (576 + 4 * i) = fixed 8 (hdr_id h) ! i" if "i < 8" for i
    unfolding b using that get32_append [OF lp] get32_concat_le32 [of i "fixed 8 (hdr_id h)"]
    by simp
  have "map (get32 (hdr_bytes h)) [576, 580, 584, 588, 592, 596, 600, 604] = fixed 8 (hdr_id h)"
    using ids [of 0] ids [of 1] ids [of 2] ids [of 3] ids [of 4] ids [of 5] ids [of 6] ids [of 7]
      list8 [of "fixed 8 (hdr_id h)"]
    by simp
  moreover have "get32 (hdr_bytes h) 8 = kernel_size h"
    "get32 (hdr_bytes h) 12 = kernel_addr h"
    "get32 (hdr_bytes h) 16 = ramdisk_size h"
    "get32 (hdr_bytes h) 20 = ramdisk_addr h"
    "get32 (hdr_bytes h) 24 = second_size h"
    "get32 (hdr_bytes h) 28 = second_addr h"
    "get32 (hdr_bytes h) 32 = tags_addr h"
    "get32 (hdr_bytes h) 36 = page_size h"
    "get32 (hdr_bytes h) 40 = dtbs_size h"
    "get32 (hdr_bytes h) 44 = unused h"
    by (simp_all add: hdr_bytes_def get32_def)
  moreover have "take 8 (hdr_bytes h) = fixed 8 (magic h)"
    "take 16 (drop 48 (hdr_bytes h)) = fixed 16 (name h)"
    "take 512 (drop 64 (hdr_bytes h)) = fixed 512 (cmdline h)"
    by (simp_all add: hdr_bytes_def)
  ultimately show ?thesis
    by (simp add: hdr_of_bytes_def)
qed

lemma length_BOOT_MAGIC [simp]: "length BOOT_MAGIC = 8"
  by (simp add: BOOT_MAGIC_def cstr_def)

lemma hdr_of_bytes_new_hdr:
  "hdr_of_bytes (hdr_bytes (new_hdr\<lparr>kernel_size := k, ramdisk_size := r, second_size := s,
       page_size := ps, dtbs_size := d\<rparr>)) =
   new_hdr\<lparr>kernel_size := k, ramdisk_size := r, second_size := s, page_size := ps, dtbs_size := d\<rparr>"
  by (simp add: hdr_of_bytes_hdr_bytes) (simp add: new_hdr_def)

lemma fread_image_file:
  "fread (image_file h rest) sizeof_hdr =
     Some (hdr_bytes h, (image_file h rest)\<lparr>pos := sizeof_hdr\<rparr>)"
  by (simp add: fread_def image_file_def) (simp add: sizeof_hdr_def)

lemma take8_hdr_bytes: "take 8 (hdr_bytes h) = fixed 8 (magic h)"
  by (simp add: hdr_bytes_def)

lemma small_hdr_parse: "hdr_of_bytes (hdr_bytes small_hdr) = small_hdr"
  unfolding small_hdr_def by (rule hdr_of_bytes_new_hdr)

lemma small_hdr_fields:
  "magic small_hdr = BOOT_MAGIC" "kernel_size small_hdr = 1" "ramdisk_size small_hdr = 1"
  "second_size small_hdr = 0" "dtbs_size small_hdr = 0" "page_size small_hdr = 2048"
  by (simp_all add: small_hdr_def new_hdr_def)

lemma image_file_simps:
  "contents (image_file h rest) = hdr_bytes h @ rest"
  "pos (image_file h rest) = 0"
  "blockdev (image_file h rest) = False"
  by (simp_all add: image_file_def)

lemma stream_new_bootimg: "stream (new_bootimg f) = f"
  by (simp add: new_bootimg_def)


section \<open>Validation of the header\<close>

text \<open>
  Under the bound \<open>(1 + n + m + o + p) * page_size < 2 ^ 32\<close> the 32-bit offset of the
  signature page is the number that the formula gives.
\<close>

lemma signature_offset_exact:
  fixes ps k r s d :: u32
  assumes "0 < ps"
    and "(1 + ceil_div (unat k) (unat ps) + ceil_div (unat r) (unat ps)
            + ceil_div (unat s) (unat ps) + ceil_div (unat d) (unat ps)) * unat ps < 2 ^ 32"
  shows "unat (signature_offset ps k r s d) =
        (1 + ceil_div (unat k) (unat ps) + ceil_div (unat r) (unat ps)
           + ceil_div (unat s) (unat ps) + ceil_div (unat d) (unat ps)) * unat ps"
proof -
  define P where "P = unat ps"
  define N where "N = ceil_div (unat k) P"
  define M where "M = ceil_div (unat r) P"
  define Q where "Q = ceil_div (unat s) P"
  define D where "D = ceil_div (unat d) P"
  have P: "0 < P"
    using assms(1) by (simp add: P_def word_less_nat_alt)
  have tot: "(1 + N + M + Q + D) * P < 2 ^ 32"
    using assms(2) by (simp add: P_def N_def M_def Q_def D_def)
  have fits: "x + P - 1 < 2 ^ 32" if "ceil_div x P + 1 \<le> 1 + N + M + Q + D" for x
  proof -
    have "x \<le> ceil_div x P * P"
      using P by (rule ceil_div_mult_ge)
    then have "x + P \<le> (ceil_div x P + 1) * P"
      by simp
    also have "\<dots> \<le> (1 + N + M + Q + D) * P"
      using that by (rule mult_le_mono1)
    finally show ?thesis
      using tot by linarith
  qed
  have n: "unat (pages k ps) = N"
    unfolding N_def P_def using P fits [of "unat k"]
    by (intro pages_exact) (simp_all add: P_def N_def)
  have m: "unat (pages r ps) = M"
    unfolding M_def P_def using P fits [of "unat r"]
    by (intro pages_exact) (simp_all add: P_def M_def)
  have o: "unat (pages s ps) = Q"
    unfolding Q_def P_def using P fits [of "unat s"]
    by (intro pages_exact) (simp_all add: P_def Q_def)
  have p: "unat (pages d ps) = D"
    unfolding D_def P_def using P fits [of "unat d"]
    by (intro pages_exact) (simp_all add: P_def D_def)
  have "unat (signature_offset ps k r s d) = (1 + N + M + Q + D) * P"
    unfolding signature_offset_def P_def
    by (rule unat_offset) (use tot in \<open>simp_all add: P_def flip: n m o p\<close>)
  then show ?thesis
    by (simp add: P_def N_def M_def Q_def D_def)
qed

text \<open>
  \<^verbatim>\<open>read_header\<close> in the terms of the code: the comparison is between two \<^verbatim>\<open>unsigned\<close>
  values, the 32-bit \<open>(1 + n + m + o + p) * page_size\<close> and the size of the container as
  \<^verbatim>\<open>img->size\<close> holds it, which is the measured size modulo \<open>2 ^ 32\<close>.
\<close>

lemma read_header_eq:
  assumes "fread (stream img) sizeof_hdr = Some (b, f)"
  shows "read_header img =
    (if take 8 b \<noteq> BOOT_MAGIC
        \<or> kernel_size (hdr_of_bytes b) = 0
        \<or> ramdisk_size (hdr_of_bytes b) = 0
        \<or> page_size (hdr_of_bytes b) = 0
        \<or> signature_offset (page_size (hdr_of_bytes b)) (kernel_size (hdr_of_bytes b))
             (ramdisk_size (hdr_of_bytes b)) (second_size (hdr_of_bytes b))
             (dtbs_size (hdr_of_bytes b))
           > word_of_nat (length (contents (stream img)))
     then Inl FormatError
     else Inr (img\<lparr>header := hdr_of_bytes b, stream := f,
                  img_size := word_of_nat (length (contents (stream img))),
                  is_blkdev := blockdev (stream img)\<rparr>))"
proof -
  have len: "length b = 608"
    using assms by (auto simp add: fread_def sizeof_hdr_def split: if_splits)
  have f: "f = (stream img)\<lparr>pos := pos (stream img) + sizeof_hdr\<rparr>"
    using assms by (auto simp add: fread_def split: if_splits)
  have m: "fixed 8 (magic (hdr_of_bytes b)) = take 8 b"
    using len by (simp add: hdr_of_bytes_def)
  show ?thesis
    using assms m
    by (simp add: read_header_def check_boot_img_header_def signature_offset_def f Let_def)
qed

text \<open>
  Claim C3, as the code has it. Let the 608 bytes of the header be read from a container
  of fewer than \<open>2 ^ 32\<close> bytes, and let \<open>T = (1 + n + m + o + p) * page_size\<close>, the
  size of the declared sections without the trailing signature page, with the page
  counts rounded up, be below \<open>2 ^ 32\<close>. Then \<^verbatim>\<open>read_header\<close> ends with a format error
  exactly when the eight bytes of the magic differ from \<^verbatim>\<open>ANDROID!\<close>, or \<open>kernel_size\<close>
  is 0, or \<open>ramdisk_size\<close> is 0, or \<open>page_size\<close> is 0, or \<open>T\<close> exceeds the measured
  size of the container; any other header is accepted, and the image then holds the
  parsed header and the measured size.
\<close>

theorem read_header_format_error:
  assumes "fread (stream img) sizeof_hdr = Some (b, f)"
    and "h = hdr_of_bytes b"
    and "T = (1 + ceil_div (unat (kernel_size h)) (unat (page_size h))
                + ceil_div (unat (ramdisk_size h)) (unat (page_size h))
                + ceil_div (unat (second_size h)) (unat (page_size h))
                + ceil_div (unat (dtbs_size h)) (unat (page_size h))) * unat (page_size h)"
    and "T < 2 ^ 32"
    and "length (contents (stream img)) < 2 ^ 32"
  shows "read_header img =
    (if take 8 b \<noteq> BOOT_MAGIC \<or> kernel_size h = 0 \<or> ramdisk_size h = 0 \<or> page_size h = 0
        \<or> length (contents (stream img)) < T
     then Inl FormatError
     else Inr (img\<lparr>header := h, stream := f,
                  img_size := word_of_nat (length (contents (stream img))),
                  is_blkdev := blockdev (stream img)\<rparr>))"
proof (cases "page_size h = 0")
  case True
  then show ?thesis
    by (simp add: read_header_eq [OF assms(1)] assms(2))
next
  case False
  then have ps: "0 < page_size h"
    by (simp add: word_greater_zero_iff)
  have "unat (signature_offset (page_size h) (kernel_size h) (ramdisk_size h) (second_size h)
      (dtbs_size h)) = T"
    unfolding assms(3) by (rule signature_offset_exact [OF ps]) (use assms(3,4) in simp)
  then have "(word_of_nat (length (contents (stream img))) :: u32)
        < signature_offset (page_size h) (kernel_size h) (ramdisk_size h) (second_size h)
            (dtbs_size h)
      \<longleftrightarrow> length (contents (stream img)) < T"
    by (simp add: word_less_nat_alt unat_of_nat32 [OF assms(5)])
  then show ?thesis
    by (simp add: read_header_eq [OF assms(1)] assms(2))
qed


text \<open>
  An image of four pages (header, kernel, ramdisk, signature) with the header
  \<open>small_hdr\<close>, for which \<open>T\<close> is 6144, is accepted.
\<close>

theorem read_header_format_error_witness:
  "read_header (new_bootimg (image_file small_hdr (replicate 7584 0))) =
     Inr ((new_bootimg (image_file small_hdr (replicate 7584 0)))
           \<lparr>header := small_hdr,
            stream := (image_file small_hdr (replicate 7584 0))\<lparr>pos := 608\<rparr>,
            img_size := 8192, is_blkdev := False\<rparr>)"
proof -
  have "fread (stream (new_bootimg (image_file small_hdr (replicate 7584 0)))) sizeof_hdr =
      Some (hdr_bytes small_hdr, (image_file small_hdr (replicate 7584 0))\<lparr>pos := sizeof_hdr\<rparr>)"
    by (simp add: stream_new_bootimg fread_image_file)
  from read_header_format_error [OF this, where h = small_hdr and T = 6144] show ?thesis
    by (simp add: small_hdr_parse small_hdr_fields take8_hdr_bytes stream_new_bootimg
        image_file_simps sizeof_hdr_def)
qed


text \<open>
  The same header in a file of three pages, with no room for the signature page, is
  accepted too, although the total size of the layout with its signature page, 8192,
  exceeds the 6144 bytes of the file.
\<close>

theorem read_header_counterexample:
  "read_header (new_bootimg (image_file small_hdr (replicate 5536 0))) =
     Inr ((new_bootimg (image_file small_hdr (replicate 5536 0)))
           \<lparr>header := small_hdr,
            stream := (image_file small_hdr (replicate 5536 0))\<lparr>pos := 608\<rparr>,
            img_size := 6144, is_blkdev := False\<rparr>)
   \<and> total_size (page_size small_hdr) (kernel_size small_hdr) (ramdisk_size small_hdr)
        (second_size small_hdr) (dtbs_size small_hdr) > 6144"
proof -
  have "fread (stream (new_bootimg (image_file small_hdr (replicate 5536 0)))) sizeof_hdr =
      Some (hdr_bytes small_hdr, (image_file small_hdr (replicate 5536 0))\<lparr>pos := sizeof_hdr\<rparr>)"
    by (simp add: stream_new_bootimg fread_image_file)
  then show ?thesis
    by (simp add: read_header_def check_boot_img_header_def Let_def small_hdr_parse
        small_hdr_fields stream_new_bootimg image_file_simps sizeof_hdr_def
        total_size_def pages_def)
qed

section \<open>Streams: what a write changes\<close>

lemma contents_fwrite:
  "contents (fwrite f buf) =
     take (pos f) (contents f) @ replicate (pos f - length (contents f)) 0
       @ buf @ drop (pos f + length buf) (contents f)"
  by (simp add: fwrite_def)

lemma pos_fwrite [simp]: "pos (fwrite f buf) = pos f + length buf"
  by (simp add: fwrite_def)

lemma blockdev_fwrite [simp]: "blockdev (fwrite f buf) = blockdev f"
  by (simp add: fwrite_def)

lemma fseek_simps [simp]:
  "pos (fseek f off) = off" "contents (fseek f off) = contents f"
  "blockdev (fseek f off) = blockdev f"
  by (simp_all add: fseek_def)

lemma length_padding [simp]: "length (padding psize) = unat psize"
  by (simp add: padding_def)

lemma take_padding: "n \<le> unat psize \<Longrightarrow> take n (padding psize) = replicate n 0"
  by (simp add: padding_def min_def)

lemma fwrite_bufD:
  "fwrite_buf f buf n = Inr f' \<Longrightarrow> n \<le> length buf \<and> f' = fwrite f (take n buf)"
  by (auto simp add: fwrite_buf_def split: if_splits)

lemma ebind_Inr [simp]: "ebind (Inr x) g = g x"
  by (simp add: ebind_def)

lemma ebind_Inl [simp]: "ebind (Inl e) g = Inl e"
  by (simp add: ebind_def)

lemma ebind_eq_Inr: "ebind r g = Inr y \<longleftrightarrow> (\<exists>x. r = Inr x \<and> g x = Inr y)"
  by (cases r) simp_all

lemma keeps_trans: "keeps q f g \<Longrightarrow> keeps q g h \<Longrightarrow> keeps q f h"
  by (simp add: keeps_def)

lemma keeps_fwrite_at:
  assumes "q \<le> off" and "q \<le> length (contents f)"
  shows "keeps q f (fwrite (fseek f off) buf)"
  using assms by (simp add: keeps_def contents_fwrite)

lemma keeps_fwrite:
  assumes "q \<le> pos f" and "q \<le> length (contents f)"
  shows "keeps q f (fwrite f buf)"
  using assms by (simp add: keeps_def contents_fwrite)

lemma keeps_fwrite_buf:
  assumes "fwrite_buf f buf n = Inr f'" and "q \<le> pos f" and "q \<le> length (contents f)"
  shows "keeps q f f'"
  using assms keeps_fwrite by (auto dest!: fwrite_bufD)

lemma keeps_fwrite_buf_at:
  assumes "fwrite_buf (fseek f off) buf n = Inr f'" and "q \<le> off" and "q \<le> length (contents f)"
  shows "keeps q f f'"
  using assms keeps_fwrite_at by (auto dest!: fwrite_bufD)

lemma keeps_length: "keeps q f g \<Longrightarrow> q \<le> length (contents g)"
  by (simp add: keeps_def)

lemma keeps_read:
  assumes "keeps q f g" and "off + n \<le> q"
  shows "take n (drop off (contents g)) = take n (drop off (contents f))"
proof -
  have "take n (drop off (take q (contents g))) = take n (drop off (take q (contents f)))"
    using assms(1) by (simp add: keeps_def)
  then show ?thesis
    using assms(2) by (simp add: drop_take)
qed

lemma read_back_fwrite:
  "take (length buf) (drop (pos f) (contents (fwrite f buf))) = buf"
  by (simp add: contents_fwrite)

lemma length_contents_fwrite:
  "length (contents (fwrite f buf)) = max (length (contents f)) (pos f + length buf)"
  by (simp add: contents_fwrite) 

lemma unat_pad:
  fixes sz psize :: u32
  assumes "0 < psize"
  shows "unat (psize - sz mod psize) = unat psize - unat sz mod unat psize"
proof -
  have "sz mod psize \<le> psize"
    using assms by (simp add: word_mod_less_divisor less_imp_le)
  then show ?thesis
    by (simp add: unat_sub unat_mod_distrib)
qed

lemma write_padded_eq:
  assumes "0 < psize"
  shows "write_padded f buf sz psize =
    (if length buf < unat sz then Inl BufferOverrun
     else Inr (fwrite (fwrite f (take (unat sz) buf))
                 (replicate (unat psize - unat sz mod unat psize) 0)))"
proof -
  have "\<not> unat psize < unat psize - unat sz mod unat psize"
    by simp
  then show ?thesis
    using assms by (simp add: write_padded_def fwrite_buf_def unat_pad take_padding)
qed

lemma keeps_seek: "keeps q (fseek f off) g \<longleftrightarrow> keeps q f g"
  by (simp add: keeps_def)

lemma keeps_refl: "q \<le> pos f \<Longrightarrow> q \<le> length (contents f) \<Longrightarrow> keeps q f f"
  by (simp add: keeps_def)

lemma keeps_write_padded:
  assumes "write_padded f buf sz psize = Inr f'" and "q \<le> pos f" and "q \<le> length (contents f)"
  shows "keeps q f f'"
proof -
  from assms(1) obtain f1 where f1: "fwrite_buf f buf (unat sz) = Inr f1"
    and f': "fwrite_buf f1 (padding psize) (unat (psize - sz mod psize)) = Inr f'"
    by (auto simp add: write_padded_def ebind_eq_Inr)
  have k1: "keeps q f f1"
    using f1 assms(2,3) by (rule keeps_fwrite_buf)
  then have "keeps q f1 f'"
    using f' by (intro keeps_fwrite_buf) (auto simp add: keeps_def)
  with k1 show ?thesis
    by (rule keeps_trans)
qed

lemma keeps_write_second:
  assumes "write_second img f = Inr f'"
    and "q \<le> unat (soffset (page_size (header img)) (kernel_size (header img))
                     (ramdisk_size (header img)))"
    and "q \<le> pos f" and "q \<le> length (contents f)"
  shows "keeps q f f'"
proof (cases "second_size (header img) = 0")
  case True
  then show ?thesis
    using assms by (simp add: write_second_def keeps_refl)
next
  case False
  then obtain s where "write_padded
      (fseek f (unat (soffset (page_size (header img)) (kernel_size (header img))
                        (ramdisk_size (header img)))))
      s (second_size (header img)) (page_size (header img)) = Inr f'"
    using assms(1) by (auto simp add: write_second_def Let_def split: option.splits)
  then have "keeps q (fseek f (unat (soffset (page_size (header img)) (kernel_size (header img))
                        (ramdisk_size (header img))))) f'"
    using assms(2,4) by (intro keeps_write_padded) simp_all
  then show ?thesis
    by (simp add: keeps_seek)
qed

lemma keeps_write_dtb:
  assumes "write_dtb d tbl psize ientry f = Inr f'" and "q \<le> pos f" and "q \<le> length (contents f)"
  shows "keeps q f f'"
proof -
  from assms(1) obtain f1 buf n where f1: "fwrite_buf f buf n = Inr f1"
    and f': "f' = f1 \<or> (\<exists>m. fwrite_buf f1 (padding psize) m = Inr f')"
    by (auto simp add: write_dtb_def Let_def ebind_eq_Inr split: if_splits dtb_ptr.splits)
  have k1: "keeps q f f1"
    using f1 assms(2,3) by (rule keeps_fwrite_buf)
  from f' show ?thesis
  proof
    assume "f' = f1"
    with k1 show ?thesis by simp
  next
    assume "\<exists>m. fwrite_buf f1 (padding psize) m = Inr f'"
    then obtain m where "fwrite_buf f1 (padding psize) m = Inr f'" ..
    then have "keeps q f1 f'"
      using k1 by (intro keeps_fwrite_buf) (auto simp add: keeps_def)
    with k1 show ?thesis
      by (rule keeps_trans)
  qed
qed

lemma keeps_write_dtb_loop:
  assumes "write_dtb_loop d tbl psize js f = Inr f'" and "q \<le> pos f" and "q \<le> length (contents f)"
  shows "keeps q f f'"
  using assms
proof (induction js arbitrary: f)
  case Nil
  then show ?case
    by (simp add: keeps_refl)
next
  case (Cons j js)
  from Cons.prems(1) obtain f1 where f1: "write_dtb d tbl psize j f = Inr f1"
    and rest: "write_dtb_loop d tbl psize js f1 = Inr f'"
    by (auto simp add: ebind_eq_Inr)
  have k1: "keeps q f f1"
    using f1 Cons.prems(2,3) by (rule keeps_write_dtb)
  then have "keeps q f1 f'"
    using rest by (intro Cons.IH) (auto simp add: keeps_def)
  with k1 show ?case
    by (rule keeps_trans)
qed

lemma keeps_write_dtbs:
  assumes "write_dtbs img f = Inr f'"
    and "q \<le> unat (doffset (page_size (header img)) (kernel_size (header img))
                     (ramdisk_size (header img)) (second_size (header img)))"
    and "q \<le> pos f" and "q \<le> length (contents f)"
  shows "keeps q f f'"
proof (cases "dtbh img")
  case None
  then show ?thesis
    using assms by (simp add: write_dtbs_def keeps_refl)
next
  case (Some d)
  define off where "off = unat (doffset (page_size (header img)) (kernel_size (header img))
                     (ramdisk_size (header img)) (second_size (header img)))"
  from assms(1) Some obtain f1 where
    f1: "fwrite_buf (fseek f off) d (unat (page_size (header img))) = Inr f1"
    and f': "write_dtb_loop d (dtbs img) (page_size (header img)) [0..<unat (num_entries d)] f1 = Inr f'"
    by (auto simp add: write_dtbs_def Let_def ebind_eq_Inr off_def split: if_splits)
  have k1: "keeps q f f1"
    using f1 assms(2,4) unfolding off_def by (rule keeps_fwrite_buf_at)
  then have "keeps q f1 f'"
    using f' by (intro keeps_write_dtb_loop) (auto simp add: keeps_def)
  with k1 show ?thesis
    by (rule keeps_trans)
qed

lemma keeps_write_signature:
  assumes "write_signature img f = Inr f'"
    and "q \<le> unat (signature_offset (page_size (header img)) (kernel_size (header img))
                     (ramdisk_size (header img)) (second_size (header img))
                     (dtbs_size (header img)))"
    and "q \<le> length (contents f)"
  shows "keeps q f f'"
proof -
  define off where "off = unat (signature_offset (page_size (header img)) (kernel_size (header img))
                     (ramdisk_size (header img)) (second_size (header img))
                     (dtbs_size (header img)))"
  from assms(1) obtain f1 m where
    f1: "fwrite_buf (fseek f off) (fixed 255 (signature img)) 255 = Inr f1"
    and f': "fwrite_buf f1 (padding (page_size (header img))) m = Inr f'"
    by (auto simp add: write_signature_def Let_def ebind_eq_Inr off_def)
  have k1: "keeps q f f1"
    using f1 assms(2,3) unfolding off_def by (rule keeps_fwrite_buf_at)
  then have "keeps q f1 f'"
    using f' by (intro keeps_fwrite_buf) (auto simp add: keeps_def)
  with k1 show ?thesis
    by (rule keeps_trans)
qed


lemma write_header_eq:
  "write_header img f =
     (if sizeof_hdr \<le> unat (page_size (header img))
      then Inr (f\<lparr>contents := hdr_bytes (header img)
                      @ replicate (unat (page_size (header img)) - sizeof_hdr) 0
                      @ drop (unat (page_size (header img))) (contents f),
                  pos := unat (page_size (header img))\<rparr>)
      else Inl BufferOverrun)"
proof (cases "sizeof_hdr \<le> unat (page_size (header img))")
  case True
  define ps where "ps = unat (page_size (header img))"
  have ps: "608 \<le> ps" "ps < 2 ^ 32"
    using True unsigned_less [of "page_size (header img)", where ?'a = nat]
    by (simp_all add: ps_def sizeof_hdr_def)
  then have "(ps + 2 ^ 64 - 608) mod 2 ^ 64 = ps - 608"
    by (simp add: mod_if)
  then have pad: "(unat (page_size (header img)) + 2 ^ 64 - sizeof_hdr) mod 2 ^ 64 = ps - 608"
    by (simp add: ps_def sizeof_hdr_def)
  have "write_header img f =
      Inr (fwrite (fwrite (fseek f 0) (hdr_bytes (header img))) (replicate (ps - 608) 0))"
    using ps unfolding write_header_def Let_def pad
    by (simp add: fwrite_buf_def take_padding flip: ps_def)
  moreover have "fwrite (fwrite (fseek f 0) (hdr_bytes (header img))) (replicate (ps - 608) 0) =
      f\<lparr>contents := hdr_bytes (header img) @ replicate (ps - 608) 0 @ drop ps (contents f),
        pos := ps\<rparr>"
    using ps by (simp add: fwrite_def fseek_def sizeof_hdr_def)
  ultimately show ?thesis
    using True by (simp add: ps_def sizeof_hdr_def)
next
  case False
  define ps where "ps = unat (page_size (header img))"
  have ps: "ps < 608"
    using False by (simp add: ps_def sizeof_hdr_def)
  then have "(ps + 2 ^ 64 - 608) mod 2 ^ 64 = ps + 2 ^ 64 - 608"
    by simp
  then have pad: "(unat (page_size (header img)) + 2 ^ 64 - sizeof_hdr) mod 2 ^ 64 = ps + 2 ^ 64 - 608"
    by (simp add: ps_def sizeof_hdr_def)
  show ?thesis
    using False ps unfolding write_header_def Let_def pad
    by (simp add: fwrite_buf_def flip: ps_def)
qed

section \<open>The header page\<close>

text \<open>
  Claim C10. For every page size of at least 608 bytes, the size of the header struct,
  the writer emits one page at offset 0: the 608 bytes of the header and
  \<open>page_size - 608\<close> zero bytes; the bytes of the stream after that page are as they
  were. The length of the padding is the \<^verbatim>\<open>size_t\<close> difference
  \<^verbatim>\<open>psize - sizeof(img->header)\<close>: for a smaller page size it wraps to more than the
  \<open>psize\<close> bytes of the padding buffer, and the write has no defined behaviour.
\<close>

theorem write_header_page:
  "write_header img f =
     (if sizeof_hdr \<le> unat (page_size (header img))
      then Inr (f\<lparr>contents := hdr_bytes (header img)
                      @ replicate (unat (page_size (header img)) - sizeof_hdr) 0
                      @ drop (unat (page_size (header img))) (contents f),
                  pos := unat (page_size (header img))\<rparr>)
      else Inl BufferOverrun)"
  by (rule write_header_eq)



section \<open>The padding of kernel, ramdisk and second stage\<close>

text \<open>
  Claim C9 at a kernel of exactly one page of 2048 bytes, written after the header page:
  the writer emits the 2048 bytes of the kernel and then
  \<^verbatim>\<open>psize - (kernel_size % psize)\<close> = 2048 zero bytes, a whole page of padding where
  the claim has none. (The loop over the sub-blobs of the table tests
  \<^verbatim>\<open>dtb_size % psize > 0\<close> before it pads; the three sections do not.)
\<close>

theorem write_kernel_whole_page:
  "write_kernel page_kernel_img (stream page_kernel_img) =
     Inr \<lparr>contents = replicate 2048 0 @ replicate 2048 1 @ replicate 2048 0,
          pos = 6144, blockdev = False\<rparr>"
proof -
  have "write_padded (stream page_kernel_img) (replicate 2048 1) 2048 2048 =
      Inr (fwrite (fwrite (stream page_kernel_img) (take (unat (2048::u32)) (replicate 2048 1)))
             (replicate (unat (2048::u32) - unat (2048::u32) mod unat (2048::u32)) 0))"
    by (subst write_padded_eq) simp_all
  then show ?thesis
    by (simp add: write_kernel_def page_kernel_img_def new_bootimg_def new_hdr_def fwrite_def)
qed

section \<open>What the loading steps leave unchanged\<close>

lemma load_sections_none:
  assumes "kernel_fname img = None" and "ramdisk_fname img = None"
    and "second_fname img = None" and "dtbs_fname img = None"
    and "kernel img = None" and "ramdisk img = None"
    and "page_size (header img) \<noteq> 0"
  shows "load_sections fs img =
    ebind (load_dtbs fs (page_size (header img)) (dtbs_size (header img))
             (doffset (page_size (header img)) (kernel_size (header img))
                (ramdisk_size (header img)) (second_size (header img))) img)
      (\<lambda>img4. Inr (set_signature img4))"
  using assms
  by (simp add: load_sections_def Let_def load_kernel_def load_ramdisk_def load_second_def)

lemma load_dtbs_copy_frame:
  assumes "dtbs_fname img = None" and "load_dtbs fs psize dsize doff img = Inr img'"
  shows "kernel img' = kernel img \<and> ramdisk img' = ramdisk img \<and> second img' = second img
    \<and> header img' = header img \<and> img_size img' = img_size img
    \<and> contents (stream img') = contents (stream img)
    \<and> (dtbs_size (header img) = 0 \<longrightarrow> dtbh img' = dtbh img)
    \<and> (dtbs_size (header img) \<noteq> 0 \<longrightarrow>
          dtbh img' = Some (take (unat dsize) (drop (unat doff) (contents (stream img)))))"
  using assms
  by (auto simp add: load_dtbs_def copy_section_def fread_def ebind_eq_Inr
      split: if_splits option.splits)

lemma set_signature_simps [simp]:
  "kernel (set_signature img) = kernel img" "ramdisk (set_signature img) = ramdisk img"
  "second (set_signature img) = second img" "dtbh (set_signature img) = dtbh img"
  "dtbs (set_signature img) = dtbs img"
  "header (set_signature img) = header img" "img_size (set_signature img) = img_size img"
  "stream (set_signature img) = stream img"
  by (simp_all add: set_signature_def)

lemma check_size_frame:
  assumes "check_size psize img = Inr img'"
  shows "kernel img' = kernel img \<and> ramdisk img' = ramdisk img \<and> second img' = second img
    \<and> dtbh img' = dtbh img \<and> dtbs img' = dtbs img \<and> header img' = header img
    \<and> stream img' = stream img \<and> signature img' = signature img"
  using assms by (auto simp add: check_size_def Let_def split: if_splits)

lemma opened_img_simps:
  "kernel_fname (opened_img h rest) = None" "ramdisk_fname (opened_img h rest) = None"
  "second_fname (opened_img h rest) = None" "dtbs_fname (opened_img h rest) = None"
  "kernel (opened_img h rest) = None" "ramdisk (opened_img h rest) = None"
  "second (opened_img h rest) = None" "dtbh (opened_img h rest) = None"
  "dtbs (opened_img h rest) = []"
  "header (opened_img h rest) = h"
  "img_size (opened_img h rest) = word_of_nat (608 + length rest)"
  "contents (stream (opened_img h rest)) = hdr_bytes h @ rest"
  "pos (stream (opened_img h rest)) = 608"
  by (simp_all add: opened_img_def new_bootimg_def image_file_def sizeof_hdr_def)

lemma dtb_hdr_fields:
  "magic dtb_hdr = BOOT_MAGIC" "kernel_size dtb_hdr = 1" "ramdisk_size dtb_hdr = 1"
  "second_size dtb_hdr = 0" "dtbs_size dtb_hdr = 2048" "page_size dtb_hdr = 2048"
  by (simp_all add: dtb_hdr_def new_hdr_def)

lemma num_entries_zeros: "12 \<le> n \<Longrightarrow> num_entries (replicate n 0) = 0"
  by (simp add: num_entries_def get32_def word_le32_def)

lemma update_images_small:
  "update_images Map.empty (opened_img small_hdr (replicate 7584 0)) =
     Inr (set_signature (opened_img small_hdr (replicate 7584 0)))"
  by (simp add: update_images_def load_sections_none opened_img_simps small_hdr_fields
      load_dtbs_def check_size_def total_size_def pages_def)

lemma read_file_Inr:
  "read_file fs fname = Inr (sz, buf) \<longleftrightarrow>
     (\<exists>c. fs fname = Some c \<and> sz = word_of_nat (length c) \<and> sz \<noteq> 0 \<and> buf = take (unat sz) c)"
  by (auto simp add: read_file_def Let_def split: option.splits)

lemma copy_section_Inr:
  "copy_section f off sz = Inr (buf, f') \<longleftrightarrow>
     (sz \<noteq> 0 \<and> unat off + unat sz \<le> length (contents f)
      \<and> buf = take (unat sz) (drop (unat off) (contents f))
      \<and> f' = f\<lparr>pos := unat off + unat sz\<rparr>)"
  by (auto simp add: copy_section_def fread_def fseek_def unat_eq_0 split: if_splits)

lemma load_kernel_frame:
  assumes "load_kernel fs img = Inr img'"
  shows "img_size img' = img_size img \<and> page_size (header img') = page_size (header img)
    \<and> contents (stream img') = contents (stream img)"
  using assms
  by (auto simp add: load_kernel_def ebind_eq_Inr split: option.splits)

lemma load_ramdisk_frame:
  assumes "load_ramdisk fs rsize roff img = Inr img'"
  shows "img_size img' = img_size img \<and> page_size (header img') = page_size (header img)
    \<and> contents (stream img') = contents (stream img)"
  using assms
  by (auto simp add: load_ramdisk_def ebind_eq_Inr copy_section_Inr split: option.splits if_splits)

lemma load_second_frame:
  assumes "load_second fs ssize soff img = Inr img'"
  shows "img_size img' = img_size img \<and> page_size (header img') = page_size (header img)
    \<and> contents (stream img') = contents (stream img)"
  using assms
  by (auto simp add: load_second_def ebind_eq_Inr copy_section_Inr split: option.splits if_splits)

lemma load_dtbs_frame:
  assumes "load_dtbs fs psize dsize doff img = Inr img'"
  shows "img_size img' = img_size img \<and> page_size (header img') = page_size (header img)
    \<and> contents (stream img') = contents (stream img)"
  using assms
  by (auto simp add: load_dtbs_def Let_def ebind_eq_Inr copy_section_Inr
      split: option.splits if_splits)

lemma load_sections_frame:
  assumes "load_sections fs img = Inr img'"
  shows "img_size img' = img_size img \<and> page_size (header img') = page_size (header img)
    \<and> contents (stream img') = contents (stream img)"
proof -
  from assms obtain img1 img2 img3 img4 rsize roff ssize soff psize dsize doff where
    s: "load_kernel fs img = Inr img1" "load_ramdisk fs rsize roff img1 = Inr img2"
    "load_second fs ssize soff img2 = Inr img3" "load_dtbs fs psize dsize doff img3 = Inr img4"
    "img' = set_signature img4"
    by (auto simp add: load_sections_def Let_def ebind_eq_Inr split: if_splits)
  show ?thesis
    using load_kernel_frame [OF s(1)] load_ramdisk_frame [OF s(2)] load_second_frame [OF s(3)]
      load_dtbs_frame [OF s(4)] s(5)
    by simp
qed

lemma load_sections_small:
  "load_sections Map.empty (opened_img small_hdr rest) =
     Inr (set_signature (opened_img small_hdr rest))"
  by (simp add: load_sections_none opened_img_simps small_hdr_fields load_dtbs_def)


section \<open>An update that names no replacement\<close>

text \<open>
  Claim C8, as the code has it. In an update run that names no replacement file for any
  of the four sections, and starts as \<^verbatim>\<open>main\<close> does with no buffer set, the buffers of
  kernel, ramdisk and second stage stay unset. The table is different: its buffer stays
  unset only when the header has \<open>dtbs_size = 0\<close>; otherwise the \<open>dtbs_size\<close> bytes at
  \<open>(1 + n + m + o) * page_size\<close> of the image are copied into it, although nothing
  before it was replaced.
\<close>

theorem no_replacement_buffers:
  assumes "kernel_fname img = None" and "ramdisk_fname img = None"
    and "second_fname img = None" and "dtbs_fname img = None"
    and "kernel img = None" and "ramdisk img = None" and "second img = None"
    and "dtbh img = None"
    and "update_images fs img = Inr img1"
  shows "kernel img1 = None \<and> ramdisk img1 = None \<and> second img1 = None
    \<and> dtbh img1 =
        (if dtbs_size (header img) = 0 then None
         else Some (take (unat (dtbs_size (header img)))
                 (drop (unat (doffset (page_size (header img)) (kernel_size (header img))
                                (ramdisk_size (header img)) (second_size (header img))))
                    (contents (stream img)))))"
proof -
  have ps: "page_size (header img) \<noteq> 0"
    using assms(9) by (auto simp add: update_images_def load_sections_def Let_def split: if_splits)
  from assms(9) obtain img5 where l: "load_sections fs img = Inr img5"
    and c: "check_size (page_size (header img)) img5 = Inr img1"
    by (auto simp add: update_images_def ebind_eq_Inr)
  from l obtain img4 where d: "load_dtbs fs (page_size (header img)) (dtbs_size (header img))
             (doffset (page_size (header img)) (kernel_size (header img))
                (ramdisk_size (header img)) (second_size (header img))) img = Inr img4"
    and s: "img5 = set_signature img4"
    unfolding load_sections_none [OF assms(1-6) ps] by (auto simp add: ebind_eq_Inr)
  show ?thesis
    using load_dtbs_copy_frame [OF assms(4) d] check_size_frame [OF c] s assms(5-8)
    by simp
qed



text \<open>
  An image of four pages with the header \<open>small_hdr\<close>, which has no table: all four
  buffers are unset after the update.
\<close>

theorem no_replacement_buffers_witness:
  "kernel (set_signature (opened_img small_hdr (replicate 7584 0))) = None
   \<and> ramdisk (set_signature (opened_img small_hdr (replicate 7584 0))) = None
   \<and> second (set_signature (opened_img small_hdr (replicate 7584 0))) = None
   \<and> dtbh (set_signature (opened_img small_hdr (replicate 7584 0))) = None"
  using no_replacement_buffers [OF _ _ _ _ _ _ _ _ update_images_small]
  by (simp add: opened_img_simps small_hdr_fields)


text \<open>
  An image of five pages whose header has a table of one page (of zero bytes, so with no
  entries): no replacement is named, and the update sets the buffer of the table to the
  2048 bytes copied from the image.
\<close>

theorem no_replacement_counterexample:
  "kernel_fname (opened_img dtb_hdr (replicate 9632 0)) = None
   \<and> ramdisk_fname (opened_img dtb_hdr (replicate 9632 0)) = None
   \<and> second_fname (opened_img dtb_hdr (replicate 9632 0)) = None
   \<and> dtbs_fname (opened_img dtb_hdr (replicate 9632 0)) = None
   \<and> map_sum id dtbh (update_images Map.empty (opened_img dtb_hdr (replicate 9632 0))) =
       Inr (Some (replicate 2048 0))"
proof -
  have "copy_section (stream (opened_img dtb_hdr (replicate 9632 0))) 6144 2048 =
      Inr (replicate 2048 0, (stream (opened_img dtb_hdr (replicate 9632 0)))\<lparr>pos := 8192\<rparr>)"
    by (simp add: copy_section_def fread_def opened_img_simps sizeof_hdr_def)
  then have "update_images Map.empty (opened_img dtb_hdr (replicate 9632 0)) =
      Inr (set_signature ((opened_img dtb_hdr (replicate 9632 0))
             \<lparr>stream := (stream (opened_img dtb_hdr (replicate 9632 0)))\<lparr>pos := 8192\<rparr>,
              dtbh := Some (replicate 2048 0), dtbs := []\<rparr>))"
    by (simp add: update_images_def load_sections_none opened_img_simps dtb_hdr_fields
        load_dtbs_def doffset_def check_size_def total_size_def pages_def num_entries_zeros)
  then show ?thesis
    by (simp add: opened_img_simps)
qed


section \<open>The size of the image against its container\<close>

text \<open>
  Claim C6, as the code has it. Once all sections are loaded, the total size is computed
  from the sizes then in the header. Let \<open>T = (2 + n + m + o + p) * page_size\<close>, with the
  page counts rounded up, be below \<open>2 ^ 32\<close>, so that the 32-bit total of the code is
  \<open>T\<close>. When the size field is 0 (no container size was fixed), it is set to \<open>T\<close>. When
  it is not 0 and \<open>T\<close> exceeds it, \<^verbatim>\<open>update_images\<close> fails with a capacity error, and
  the update command, and the create command when it was given a kernel and a ramdisk,
  end before the writer is called, the bytes of the target being what they were.
  Otherwise the run goes on and the size field keeps the value it had.
\<close>

theorem capacity_check:
  assumes "load_sections fs img = Inr img1"
    and "h = header img1"
    and "T = (2 + ceil_div (unat (kernel_size h)) (unat (page_size h))
                + ceil_div (unat (ramdisk_size h)) (unat (page_size h))
                + ceil_div (unat (second_size h)) (unat (page_size h))
                + ceil_div (unat (dtbs_size h)) (unat (page_size h))) * unat (page_size h)"
    and "T < 2 ^ 32"
  shows "update_images fs img =
      (if img_size img = 0 then Inr (img1\<lparr>img_size := word_of_nat T\<rparr>)
       else if unat (img_size img) < T then Inl CapacityError
       else Inr img1)
    \<and> (img_size img \<noteq> 0 \<and> unat (img_size img) < T
        \<longrightarrow> cmd_update fs img = Aborted CapacityError (contents (stream img)))
    \<and> (img_size img \<noteq> 0 \<and> unat (img_size img) < T
          \<and> kernel_fname img \<noteq> None \<and> ramdisk_fname img \<noteq> None
        \<longrightarrow> cmd_create fs img = Aborted CapacityError (contents (stream img)))"
proof -
  have "page_size (header img) \<noteq> 0"
    using assms(1) by (auto simp add: load_sections_def Let_def split: if_splits)
  then have ps: "0 < page_size h"
    using load_sections_frame [OF assms(1)] by (simp add: word_greater_zero_iff assms(2))
  have "unat (total_size (page_size h) (kernel_size h) (ramdisk_size h) (second_size h)
      (dtbs_size h)) = T"
    using layout_exact [OF ps, of "kernel_size h" "ramdisk_size h" "second_size h" "dtbs_size h"]
      assms(3,4)
    by simp
  from arg_cong [OF this, of "word_of_nat :: nat \<Rightarrow> u32"]
  have t: "total_size (page_size h) (kernel_size h) (ramdisk_size h) (second_size h)
      (dtbs_size h) = word_of_nat T"
    by simp
  have lt: "img_size img < word_of_nat T \<longleftrightarrow> unat (img_size img) < T"
    by (simp add: word_less_nat_alt unat_of_nat32 [OF assms(4)])
  have u: "update_images fs img =
      (if img_size img = 0 then Inr (img1\<lparr>img_size := word_of_nat T\<rparr>)
       else if unat (img_size img) < T then Inl CapacityError
       else Inr img1)"
    using assms(1) load_sections_frame [OF assms(1)] t lt
    by (simp add: update_images_def check_size_def Let_def assms(2))
  then show ?thesis
    by (auto simp add: cmd_update_def cmd_create_def)
qed

text \<open>
  An update of an image of three pages with the header \<open>small_hdr\<close>: the layout with its
  signature page needs 8192 bytes, the container has 6144, and the run aborts with the
  target unchanged. A creation from three one-byte files whose size was fixed to 2048
  bytes: the layout needs 10240, and the run aborts with the new file still empty.
\<close>

theorem capacity_check_witness:
  "update_images Map.empty (opened_img small_hdr (replicate 5536 0)) = Inl CapacityError
   \<and> cmd_update Map.empty (opened_img small_hdr (replicate 5536 0)) =
       Aborted CapacityError (hdr_bytes small_hdr @ replicate 5536 0)
   \<and> cmd_create create_files (create_img\<lparr>img_size := 2048\<rparr>) = Aborted CapacityError []"
proof -
  have "load_sections create_files (create_img\<lparr>img_size := 2048\<rparr>) =
      Inr (set_signature (create_img
        \<lparr>img_size := 2048, header := created_hdr, kernel := Some [75], ramdisk := Some [82],
         second := Some [83]\<rparr>))"
    by (simp add: load_sections_def Let_def load_kernel_def load_ramdisk_def
        load_second_def load_dtbs_def read_file_def create_files_def create_img_def
        new_bootimg_def new_hdr_def created_hdr_def set_signature_def)
  from capacity_check [OF this, where h = created_hdr and T = 10240]
  have "cmd_create create_files (create_img\<lparr>img_size := 2048\<rparr>) = Aborted CapacityError []"
    by (simp add: created_hdr_def new_hdr_def set_signature_def)
      (simp add: create_img_def new_bootimg_def)
  then show ?thesis
    using capacity_check [OF load_sections_small [of "replicate 5536 0"],
        where h = small_hdr and T = 8192]
    by (simp add: opened_img_simps small_hdr_fields set_signature_def)
qed

text \<open>
  The same header in a file of 10240 bytes: the total size 8192 does not exceed the
  container, and the size field is still 10240 after \<^verbatim>\<open>update_images\<close>, not 8192.
\<close>

theorem capacity_counterexample:
  "map_sum id img_size (update_images Map.empty (opened_img small_hdr (replicate 9632 0))) =
     Inr 10240
   \<and> total_size (page_size small_hdr) (kernel_size small_hdr) (ramdisk_size small_hdr)
        (second_size small_hdr) (dtbs_size small_hdr) = 8192"
  by (simp add: update_images_def load_sections_small check_size_def opened_img_simps
      small_hdr_fields total_size_def pages_def)

section \<open>Rewriting the device tree table\<close>

lemma length_set32: "off + 4 \<le> length d \<Longrightarrow> length (set32 d off v) = length d"
  by (simp add: set32_def)

lemma get32_set32_same: "off + 4 \<le> length d \<Longrightarrow> get32 (set32 d off v) off = v"
  by (simp add: set32_def get32_def)

lemma get32_set32_before:
  assumes "off + 4 \<le> length d" and "off' + 4 \<le> off"
  shows "get32 (set32 d off v) off' = get32 d off'"
proof -
  have "take 4 (drop off' (take off d @ le32 v @ drop (off + 4) d)) = take 4 (drop off' (take off d))"
    using assms by simp
  also have "\<dots> = take 4 (drop off' d)"
    using assms by (simp add: drop_take min_def)
  finally show ?thesis
    by (simp add: set32_def get32_def)
qed

lemma get32_set32_after:
  assumes "off + 4 \<le> length d" and "off + 4 \<le> off'"
  shows "get32 (set32 d off v) off' = get32 d off'"
proof -
  have "drop off' (take off d @ le32 v @ drop (off + 4) d) = drop (off' - off - 4) (drop (off + 4) d)"
    using assms by simp
  also have "\<dots> = drop off' d"
    using assms by simp
  finally show ?thesis
    by (simp add: set32_def get32_def)
qed

lemma load_dtb_Inr:
  assumes "load_dtb fs fname psize ientry (d, tbl, p) = Inr (d', tbl', p')"
    and "fs (fname @ ''.dtb_p'' @ dec ientry) = Some b"
  shows "dt_entry ientry + 28 \<le> length d \<and> b \<noteq> []
    \<and> d' = set32 (set32 d (dt_entry ientry + 20) (p * psize)) (dt_entry ientry + 24)
             (word_of_nat (length b))
    \<and> tbl' = tbl @ [Buf b] \<and> p' = p + word_of_nat (ceil_div (length b) (unat psize))"
  using assms by (auto simp add: load_dtb_def split: if_splits)

lemma load_dtb_entry:
  assumes "dt_entry ientry + 28 \<le> length d"
    and d'_def: "d' = set32 (set32 d (dt_entry ientry + 20) x) (dt_entry ientry + 24) y"
  shows "length d' = length d" and "dt_offset d' ientry = x" and "dt_dtb_size d' ientry = y"
    and "num_entries d' = num_entries d"
    and "j \<noteq> ientry \<Longrightarrow> dt_offset d' j = dt_offset d j \<and> dt_dtb_size d' j = dt_dtb_size d j"
proof -
  let ?e = "dt_entry ientry"
  let ?d1 = "set32 d (?e + 20) x"
  have l1: "length ?d1 = length d"
    using assms(1) by (simp add: length_set32)
  show "length d' = length d"
    using assms(1) l1 by (simp add: d'_def length_set32)
  show "dt_offset d' ientry = x"
    using assms(1) l1 by (simp add: d'_def dt_offset_def get32_set32_before get32_set32_same)
  show "dt_dtb_size d' ientry = y"
    using assms(1) l1 by (simp add: d'_def dt_dtb_size_def get32_set32_same)
  show "num_entries d' = num_entries d"
    using assms(1) l1 by (simp add: d'_def num_entries_def get32_set32_before dt_entry_def)
  show "dt_offset d' j = dt_offset d j \<and> dt_dtb_size d' j = dt_dtb_size d j" if "j \<noteq> ientry"
  proof (cases "j < ientry")
    case True
    then have "dt_entry j + 32 \<le> ?e"
      by (simp add: dt_entry_def)
    then show ?thesis
      using assms(1) l1 by (simp add: d'_def dt_offset_def dt_dtb_size_def get32_set32_before)
  next
    case False
    with that have "?e + 32 \<le> dt_entry j"
      by (simp add: dt_entry_def)
    then show ?thesis
      using assms(1) l1 by (simp add: d'_def dt_offset_def dt_dtb_size_def get32_set32_after)
  qed
qed

lemma load_dtb_loop_inv:
  assumes "load_dtb_loop fs fname psize [a..<a + length bs] (d, tbl, p) = Inr (d', tbl', p')"
    and "\<forall>i<length bs. fs (fname @ ''.dtb_p'' @ dec (a + i)) = Some (bs ! i)"
  shows "length d' = length d \<and> num_entries d' = num_entries d
    \<and> tbl' = tbl @ map Buf bs
    \<and> p' = p + word_of_nat (blob_pages psize bs)
    \<and> (\<forall>i<length bs.
          dt_offset d' (a + i) = (p + word_of_nat (blob_pages psize (take i bs))) * psize
          \<and> dt_dtb_size d' (a + i) = word_of_nat (length (bs ! i)))
    \<and> (\<forall>j<a. dt_offset d' j = dt_offset d j \<and> dt_dtb_size d' j = dt_dtb_size d j)"
  using assms
proof (induction bs arbitrary: a d tbl p)
  case Nil
  then show ?case by simp
next
  case (Cons b bs)
  have "[a..<a + length (b # bs)] = a # [Suc a..<a + length (b # bs)]"
    by (rule upt_conv_Cons) simp
  then have idx: "[a..<a + length (b # bs)] = a # [Suc a..<Suc a + length bs]"
    by simp
  have fa: "fs (fname @ ''.dtb_p'' @ dec a) = Some b"
    using Cons.prems(2) by force
  from Cons.prems(1) obtain d1 tbl1 p1 where
    step: "load_dtb fs fname psize a (d, tbl, p) = Inr (d1, tbl1, p1)"
    and rest: "load_dtb_loop fs fname psize [Suc a..<Suc a + length bs] (d1, tbl1, p1)
                 = Inr (d', tbl', p')"
    unfolding idx by (auto simp add: ebind_eq_Inr)
  note s = load_dtb_Inr [OF step fa]
  then have inb: "dt_entry a + 28 \<le> length d"
    and d1: "d1 = set32 (set32 d (dt_entry a + 20) (p * psize)) (dt_entry a + 24)
                    (word_of_nat (length b))"
    and tbl1: "tbl1 = tbl @ [Buf b]"
    and p1: "p1 = p + word_of_nat (ceil_div (length b) (unat psize))"
    by simp_all
  note e = load_dtb_entry [OF inb d1]
  have files: "\<forall>i<length bs. fs (fname @ ''.dtb_p'' @ dec (Suc a + i)) = Some (bs ! i)"
  proof (intro allI impI)
    fix i
    assume "i < length bs"
    then have "fs (fname @ ''.dtb_p'' @ dec (a + Suc i)) = Some ((b # bs) ! Suc i)"
      using Cons.prems(2) by (metis Suc_less_eq length_Cons)
    then show "fs (fname @ ''.dtb_p'' @ dec (Suc a + i)) = Some (bs ! i)"
      by simp
  qed
  note ih = Cons.IH [OF rest files]
  have ent: "dt_offset d' (a + i) = (p + word_of_nat (blob_pages psize (take i (b # bs)))) * psize
      \<and> dt_dtb_size d' (a + i) = word_of_nat (length ((b # bs) ! i))"
    if "i < length (b # bs)" for i
  proof (cases i)
    case 0
    have "dt_offset d' a = dt_offset d1 a \<and> dt_dtb_size d' a = dt_dtb_size d1 a"
      using ih by simp
    then show ?thesis
      using 0 e(2,3) by simp
  next
    case (Suc k)
    then have k: "k < length bs"
      using that by simp
    have "dt_offset d' (Suc a + k) = (p1 + word_of_nat (blob_pages psize (take k bs))) * psize
      \<and> dt_dtb_size d' (Suc a + k) = word_of_nat (length (bs ! k))"
      using ih k by blast
    then show ?thesis
      using Suc by (simp add: p1 add.assoc)
  qed
  have old: "dt_offset d' j = dt_offset d j \<and> dt_dtb_size d' j = dt_dtb_size d j" if "j < a" for j
  proof -
    have "dt_offset d' j = dt_offset d1 j \<and> dt_dtb_size d' j = dt_dtb_size d1 j"
      using ih that by simp
    then show ?thesis
      using e(5) [of j] that by simp
  qed
  have "length d' = length d" "num_entries d' = num_entries d"
    using ih e(1,4) by simp_all
  moreover have "tbl' = tbl @ map Buf (b # bs)"
    using ih tbl1 by simp
  moreover have "p' = p + word_of_nat (blob_pages psize (b # bs))"
    using ih by (simp add: p1 add.assoc)
  ultimately show ?case
    using ent old by blast
qed

lemma load_dtb_num_entries:
  assumes "load_dtb fs fname psize ientry (d, tbl, p) = Inr (d', tbl', p')"
  shows "num_entries d' = num_entries d"
proof -
  from assms obtain b where "fs (fname @ ''.dtb_p'' @ dec ientry) = Some b"
    by (auto simp add: load_dtb_def split: if_splits option.splits)
  from load_dtb_Inr [OF assms this] show ?thesis
    using load_dtb_entry(4) by blast
qed

lemma load_dtb_loop_num_entries:
  assumes "load_dtb_loop fs fname psize js (d, tbl, p) = Inr (d', tbl', p')"
  shows "num_entries d' = num_entries d"
  using assms
proof (induction js arbitrary: d tbl p)
  case Nil
  then show ?case by simp
next
  case (Cons j js)
  from Cons.prems obtain d1 tbl1 p1 where
    step: "load_dtb fs fname psize j (d, tbl, p) = Inr (d1, tbl1, p1)"
    and rest: "load_dtb_loop fs fname psize js (d1, tbl1, p1) = Inr (d', tbl', p')"
    by (auto simp add: ebind_eq_Inr)
  show ?case
    using Cons.IH [OF rest] load_dtb_num_entries [OF step] by simp
qed

lemma load_dtbs_replace:
  assumes "dtbs_fname img = Some fname"
    and "load_dtbs fs psize dsize doff img = Inr img'"
  shows "\<exists>d0 d' tbl p.
      load_dtb_loop fs fname psize [0..<unat (num_entries d0)] (d0, [], 1) = Inr (d', tbl, p)
      \<and> img' = img\<lparr>header := (header img)\<lparr>dtbs_size := p * psize\<rparr>, dtbh := Some d', dtbs := tbl\<rparr>"
  using assms
  by (auto simp add: load_dtbs_def Let_def ebind_eq_Inr split: option.splits if_splits)

lemma load_kernel_fnames:
  assumes "load_kernel fs img = Inr img'"
  shows "ramdisk_fname img' = ramdisk_fname img \<and> second_fname img' = second_fname img
    \<and> dtbs_fname img' = dtbs_fname img"
  using assms by (auto simp add: load_kernel_def ebind_eq_Inr split: option.splits)

lemma load_ramdisk_fnames:
  assumes "load_ramdisk fs rsize roff img = Inr img'"
  shows "second_fname img' = second_fname img \<and> dtbs_fname img' = dtbs_fname img"
  using assms
  by (auto simp add: load_ramdisk_def ebind_eq_Inr split: option.splits if_splits)

lemma load_second_fnames:
  assumes "load_second fs ssize soff img = Inr img'"
  shows "dtbs_fname img' = dtbs_fname img"
  using assms
  by (auto simp add: load_second_def ebind_eq_Inr split: option.splits if_splits)

lemma update_images_steps:
  assumes "update_images fs img = Inr img'"
  obtains img1 img2 img3 img4 where
    "page_size (header img) \<noteq> 0"
    "load_kernel fs img = Inr img1"
    "load_ramdisk fs (ramdisk_size (header img))
       (roffset (page_size (header img)) (kernel_size (header img))) img1 = Inr img2"
    "load_second fs (second_size (header img))
       (soffset (page_size (header img)) (kernel_size (header img)) (ramdisk_size (header img)))
       img2 = Inr img3"
    "load_dtbs fs (page_size (header img)) (dtbs_size (header img))
       (doffset (page_size (header img)) (kernel_size (header img)) (ramdisk_size (header img))
          (second_size (header img))) img3 = Inr img4"
    "check_size (page_size (header img)) (set_signature img4) = Inr img'"
  using assms
  by (auto simp add: update_images_def load_sections_def Let_def ebind_eq_Inr split: if_splits)

lemma dtb_rewrite_words:
  assumes "dtbs_fname img = Some fname"
    and "update_images fs img = Inr img1"
    and "dtbh img1 = Some d'"
    and "length bs = unat (num_entries d')"
    and "\<forall>i<length bs. fs (fname @ ''.dtb_p'' @ dec i) = Some (bs ! i)"
  shows "(\<forall>i<length bs.
        dt_offset d' i = (1 + word_of_nat (blob_pages (page_size (header img)) (take i bs)))
                           * page_size (header img)
        \<and> dt_dtb_size d' i = word_of_nat (length (bs ! i)))
    \<and> dtbs_size (header img1) = (1 + word_of_nat (blob_pages (page_size (header img)) bs))
                                   * page_size (header img)
    \<and> dtbs img1 = map Buf bs"
proof -
  from assms(2) obtain i1 i2 i3 i4 where
    st: "load_kernel fs img = Inr i1"
    "load_ramdisk fs (ramdisk_size (header img))
       (roffset (page_size (header img)) (kernel_size (header img))) i1 = Inr i2"
    "load_second fs (second_size (header img))
       (soffset (page_size (header img)) (kernel_size (header img)) (ramdisk_size (header img)))
       i2 = Inr i3"
    "load_dtbs fs (page_size (header img)) (dtbs_size (header img))
       (doffset (page_size (header img)) (kernel_size (header img)) (ramdisk_size (header img))
          (second_size (header img))) i3 = Inr i4"
    "check_size (page_size (header img)) (set_signature i4) = Inr img1"
    by (rule update_images_steps)
  have "dtbs_fname i3 = Some fname"
    using load_kernel_fnames [OF st(1)] load_ramdisk_fnames [OF st(2)]
      load_second_fnames [OF st(3)] assms(1) by simp
  from load_dtbs_replace [OF this st(4)] obtain d0 d1 tbl p where
    loop: "load_dtb_loop fs fname (page_size (header img)) [0..<unat (num_entries d0)] (d0, [], 1)
             = Inr (d1, tbl, p)"
    and i4: "i4 = i3\<lparr>header := (header i3)\<lparr>dtbs_size := p * page_size (header img)\<rparr>,
                   dtbh := Some d1, dtbs := tbl\<rparr>"
    by blast
  have fin: "dtbh img1 = Some d1" "dtbs img1 = tbl"
    "dtbs_size (header img1) = p * page_size (header img)"
    using check_size_frame [OF st(5)] i4 by simp_all
  then have d1: "d1 = d'"
    using assms(3) by simp
  have "num_entries d1 = num_entries d0"
    using loop by (rule load_dtb_loop_num_entries)
  then have "[0..<unat (num_entries d0)] = [0..<0 + length bs]"
    using assms(4) d1 by simp
  with loop have "load_dtb_loop fs fname (page_size (header img)) [0..<0 + length bs] (d0, [], 1)
             = Inr (d1, tbl, p)"
    by simp
  from load_dtb_loop_inv [OF this] assms(5) show ?thesis
    using fin d1 by simp
qed

lemma sum_list_take_le:
  fixes f :: "'a \<Rightarrow> nat"
  shows "sum_list (map f (take i xs)) \<le> sum_list (map f xs)"
proof -
  have "sum_list (map f xs) = sum_list (map f (take i xs)) + sum_list (map f (drop i xs))"
    by (metis append_take_drop_id map_append sum_list_append)
  then show ?thesis
    by simp
qed

lemma load_sections_dtbs_only:
  assumes "kernel_fname img = None" and "ramdisk_fname img = None"
    and "second_fname img = None"
    and "kernel img = None" and "ramdisk img = None"
    and "page_size (header img) \<noteq> 0"
  shows "load_sections fs img =
    ebind (load_dtbs fs (page_size (header img)) (dtbs_size (header img))
             (doffset (page_size (header img)) (kernel_size (header img))
                (ramdisk_size (header img)) (second_size (header img))) img)
      (\<lambda>img4. Inr (set_signature img4))"
  using assms
  by (simp add: load_sections_def Let_def load_kernel_def load_ramdisk_def load_second_def)

lemma dtb_update_img_simps:
  "kernel_fname dtb_update_img = None" "ramdisk_fname dtb_update_img = None"
  "second_fname dtb_update_img = None" "dtbs_fname dtb_update_img = Some ''platform''"
  "kernel dtb_update_img = None" "ramdisk dtb_update_img = None"
  "second dtb_update_img = None" "dtbh dtb_update_img = None"
  "header dtb_update_img = small_hdr"
  "img_size dtb_update_img = 16384"
  by (simp_all add: dtb_update_img_def opened_img_simps)

lemma length_dtb_table [simp]: "length (dtb_table n) = 12 + 32 * unat n"
  by (simp add: dtb_table_def)

lemma num_entries_dtb_table [simp]: "num_entries (dtb_table n @ rest) = n"
  using get32_append_le32 [of "le32 0x48425444 @ le32 2" 8 n]
  by (simp add: num_entries_def dtb_table_def)

lemma huge_blob_run:
  "update_images huge_blob_files dtb_update_img =
     Inr (set_signature (dtb_update_img
       \<lparr>header := small_hdr\<lparr>dtbs_size := 2048\<rparr>,
        dtbh := Some (set32 (set32 (dtb_table 1 @ replicate 2004 0) (dt_entry 0 + 20) 2048)
                        (dt_entry 0 + 24) 0),
        dtbs := [Buf (replicate 4294967296 0)]\<rparr>))"
proof -
  have z: "(4294967296::u32) = 0"
    by simp
  have "load_dtb huge_blob_files ''platform'' 2048 0 (dtb_table 1 @ replicate 2004 0, [], 1) =
      Inr (set32 (set32 (dtb_table 1 @ replicate 2004 0) (dt_entry 0 + 20) 2048)
                        (dt_entry 0 + 24) 0,
           [Buf (replicate 4294967296 0)], 2097153)"
    by (simp add: load_dtb_def huge_blob_files_def dec.simps dt_entry_def z)
  then have "load_dtbs huge_blob_files 2048 0 6144 dtb_update_img =
      Inr (dtb_update_img
       \<lparr>header := small_hdr\<lparr>dtbs_size := 2048\<rparr>,
        dtbh := Some (set32 (set32 (dtb_table 1 @ replicate 2004 0) (dt_entry 0 + 20) 2048)
                        (dt_entry 0 + 24) 0),
        dtbs := [Buf (replicate 4294967296 0)]\<rparr>)"
    by (simp add: load_dtbs_def dtb_update_img_simps huge_blob_files_def Let_def)
  then show ?thesis
    by (simp add: update_images_def load_sections_dtbs_only dtb_update_img_simps small_hdr_fields
        doffset_def check_size_def total_size_def pages_def)
qed


lemma upt_two: "[0..<2] = [0, Suc 0]"
  by (simp add: upt_rec)

lemma two_blob_run:
  "update_images two_blob_files dtb_update_img =
     Inr (set_signature (dtb_update_img
       \<lparr>header := small_hdr\<lparr>dtbs_size := 8192\<rparr>,
        dtbh := Some two_blob_table,
        dtbs := [Buf (replicate 3000 1), Buf [2]]\<rparr>))"
proof -
  let ?d0 = "dtb_table 2 @ replicate 1972 0"
  let ?d1 = "set32 (set32 ?d0 (dt_entry 0 + 20) 2048) (dt_entry 0 + 24) 3000"
  have l0: "dt_entry 0 + 28 \<le> length ?d0"
    by (simp add: dt_entry_def)
  have l1: "length ?d1 = 2048"
    using load_dtb_entry(1) [OF l0 refl] by simp
  have s0: "load_dtb two_blob_files ''platform'' 2048 0 (?d0, [], 1) =
      Inr (?d1, [Buf (replicate 3000 1)], 3)"
    by (simp add: load_dtb_def two_blob_files_def dec.simps dt_entry_def)
  have s1: "load_dtb two_blob_files ''platform'' 2048 (Suc 0) (?d1, [Buf (replicate 3000 1)], 3) =
      Inr (two_blob_table, [Buf (replicate 3000 1), Buf [2]], 4)"
    using l1 by (simp add: load_dtb_def two_blob_files_def dec.simps dt_entry_def two_blob_table_def)
  have "load_dtbs two_blob_files 2048 0 6144 dtb_update_img =
      Inr (dtb_update_img
       \<lparr>header := small_hdr\<lparr>dtbs_size := 8192\<rparr>,
        dtbh := Some two_blob_table,
        dtbs := [Buf (replicate 3000 1), Buf [2]]\<rparr>)"
    using s0 s1
    by (simp add: load_dtbs_def dtb_update_img_simps two_blob_files_def Let_def upt_two)
  then show ?thesis
    by (simp add: update_images_def load_sections_dtbs_only dtb_update_img_simps small_hdr_fields
        doffset_def check_size_def total_size_def pages_def)
qed


text \<open>
  Claim C5, as the code has it. After an update that replaces the table by the sub-blobs
  \<open>bs\<close>, as many as the table has entries, whose page total
  \<open>(1 + \<Sum>\<^sub>j \<lceil>s\<^sub>j / page_size\<rceil>) * page_size\<close> is below \<open>2 ^ 32\<close>: the offset field of every
  entry \<open>i\<close> is \<open>(1 + \<Sum>\<^bsub>j<i\<^esub> \<lceil>s\<^sub>j / page_size\<rceil>) * page_size\<close>, its \<open>dtb_size\<close> field is the
  length of sub-blob \<open>i\<close>, and the \<open>dtbs_size\<close> of the header is that page total.
\<close>

theorem dtb_rewrite:
  assumes "dtbs_fname img = Some fname"
    and "update_images fs img = Inr img1"
    and "dtbh img1 = Some d'"
    and "length bs = unat (num_entries d')"
    and "\<forall>i<length bs. fs (fname @ ''.dtb_p'' @ dec i) = Some (bs ! i)"
    and "(1 + blob_pages (page_size (header img)) bs) * unat (page_size (header img)) < 2 ^ 32"
  shows "(\<forall>i<length bs.
        unat (dt_offset d' i) =
          (1 + blob_pages (page_size (header img)) (take i bs)) * unat (page_size (header img))
        \<and> unat (dt_dtb_size d' i) = length (bs ! i))
    \<and> unat (dtbs_size (header img1)) =
        (1 + blob_pages (page_size (header img)) bs) * unat (page_size (header img))"
proof -
  define ps where "ps = page_size (header img)"
  note w = dtb_rewrite_words [OF assms(1-5), folded ps_def]
  have bound: "(1 + blob_pages ps bs) * unat ps < 2 ^ 32"
    using assms(6) by (simp add: ps_def)
  have "ps \<noteq> 0"
    using assms(2) unfolding ps_def by (rule update_images_steps)
  then have ps: "0 < unat ps"
    by (simp add: unat_gt_0)
  have off: "unat ((1 + word_of_nat x) * ps) = (1 + x) * unat ps" if "x \<le> blob_pages ps bs" for x
  proof (rule unat_offset)
    show "(1 + word_of_nat x :: u32) = word_of_nat (1 + x)"
      by simp
    have "(1 + x) * unat ps \<le> (1 + blob_pages ps bs) * unat ps"
      using that by (intro mult_le_mono1) simp
    then show "(1 + x) * unat ps < 2 ^ 32"
      using bound by linarith
  qed
  have len: "unat (word_of_nat (length (bs ! i)) :: u32) = length (bs ! i)" if "i < length bs" for i
  proof (rule unat_of_nat32)
    have "ceil_div (length (bs ! i)) (unat ps) \<in> set (map (\<lambda>b. ceil_div (length b) (unat ps)) bs)"
      using that by (auto intro!: image_eqI [of _ _ "bs ! i"])
    then have "ceil_div (length (bs ! i)) (unat ps) \<le> blob_pages ps bs"
      by (intro member_le_sum_list) simp_all
    then have "ceil_div (length (bs ! i)) (unat ps) * unat ps \<le> (1 + blob_pages ps bs) * unat ps"
      by (intro mult_le_mono1) simp
    moreover have "length (bs ! i) \<le> ceil_div (length (bs ! i)) (unat ps) * unat ps"
      using ps by (rule ceil_div_mult_ge)
    ultimately show "length (bs ! i) < 2 ^ 32"
      using bound by linarith
  qed
  have "unat (dt_offset d' i) = (1 + blob_pages ps (take i bs)) * unat ps
      \<and> unat (dt_dtb_size d' i) = length (bs ! i)" if "i < length bs" for i
    using w that off [OF sum_list_take_le [of _ i bs]] len [OF that] by simp
  moreover have "unat (dtbs_size (header img1)) = (1 + blob_pages ps bs) * unat ps"
    using w off [of "blob_pages ps bs"] by simp
  ultimately show ?thesis
    by (simp add: ps_def)
qed


text \<open>
  Two sub-blobs of 3000 bytes and 1 byte with pages of 2048 bytes: offsets 2048 and 6144,
  sizes 3000 and 1, and a table of 8192 bytes.
\<close>

theorem dtb_rewrite_witness:
  "unat (dt_offset two_blob_table 0) = 2048 \<and> unat (dt_dtb_size two_blob_table 0) = 3000
   \<and> unat (dt_offset two_blob_table 1) = 6144 \<and> unat (dt_dtb_size two_blob_table 1) = 1
   \<and> unat (dtbs_size (small_hdr\<lparr>dtbs_size := 8192\<rparr>)) = 8192"
proof -
  let ?bs = "[replicate 3000 1, [2]] :: byte list list"
  let ?img1 = "set_signature (dtb_update_img
       \<lparr>header := small_hdr\<lparr>dtbs_size := 8192\<rparr>,
        dtbh := Some two_blob_table,
        dtbs := [Buf (replicate 3000 1), Buf [2]]\<rparr>)"
  let ?d0 = "dtb_table 2 @ replicate 1972 0"
  let ?d1 = "set32 (set32 ?d0 (dt_entry 0 + 20) 2048) (dt_entry 0 + 24) 3000"
  have d: "dtbh ?img1 = Some two_blob_table"
    by simp
  have l0: "dt_entry 0 + 28 \<le> length ?d0"
    by (simp add: dt_entry_def)
  have l1: "dt_entry 1 + 28 \<le> length ?d1"
    using load_dtb_entry(1) [OF l0 refl] by (simp add: dt_entry_def)
  have "num_entries two_blob_table = num_entries ?d1"
    using l1 by (rule load_dtb_entry(4)) (simp add: two_blob_table_def)
  also have "\<dots> = num_entries ?d0"
    using l0 by (rule load_dtb_entry(4)) simp
  finally have n: "length ?bs = unat (num_entries two_blob_table)"
    by simp
  have f: "\<forall>i<length ?bs. two_blob_files (''platform'' @ ''.dtb_p'' @ dec i) = Some (?bs ! i)"
  proof (intro allI impI)
    fix i
    assume "i < length ?bs"
    then have "i = 0 \<or> i = Suc 0"
      by (simp add: less_2_cases)
    then show "two_blob_files (''platform'' @ ''.dtb_p'' @ dec i) = Some (?bs ! i)"
      by (auto simp add: two_blob_files_def dec.simps)
  qed
  have b: "(1 + blob_pages (page_size (header dtb_update_img)) ?bs)
      * unat (page_size (header dtb_update_img)) < 2 ^ 32"
    by (simp add: dtb_update_img_simps small_hdr_fields)
  have p: "page_size (header dtb_update_img) = 2048"
    by (simp add: dtb_update_img_simps small_hdr_fields)
  from dtb_rewrite [OF dtb_update_img_simps(4) two_blob_run d n f b]
  have "(\<forall>i<length ?bs.
        unat (dt_offset two_blob_table i) = (1 + blob_pages 2048 (take i ?bs)) * unat (2048::u32)
        \<and> unat (dt_dtb_size two_blob_table i) = length (?bs ! i))
    \<and> unat (dtbs_size (header ?img1)) = (1 + blob_pages 2048 ?bs) * unat (2048::u32)"
    unfolding p .
  then have "(unat (dt_offset two_blob_table 0) = (1 + blob_pages 2048 (take 0 ?bs)) * unat (2048::u32)
        \<and> unat (dt_dtb_size two_blob_table 0) = length (?bs ! 0))
    \<and> (unat (dt_offset two_blob_table 1) = (1 + blob_pages 2048 (take 1 ?bs)) * unat (2048::u32)
        \<and> unat (dt_dtb_size two_blob_table 1) = length (?bs ! 1))
    \<and> unat (dtbs_size (header ?img1)) = (1 + blob_pages 2048 ?bs) * unat (2048::u32)"
    by simp
  then show ?thesis
    by simp
qed


text \<open>
  Without the bound the fields are not the exact values: after an update with one
  sub-blob of \<open>2 ^ 32\<close> bytes the \<open>dtb_size\<close> field of its entry is 0, and the \<open>dtbs_size\<close> of
  the header is 2048, where the page total is 4294969344.
\<close>

theorem dtb_rewrite_counterexample:
  "map_sum id (\<lambda>i. (map_option (\<lambda>d. dt_dtb_size d 0) (dtbh i), dtbs_size (header i)))
     (update_images huge_blob_files dtb_update_img) = Inr (Some 0, 2048)
   \<and> huge_blob_files ''platform.dtb_p0'' = Some (replicate 4294967296 0)
   \<and> length (replicate 4294967296 (0::byte)) = 4294967296
   \<and> (1 + ceil_div 4294967296 2048) * 2048 = (4294969344::nat)"
proof -
  have "dt_entry 0 + 28 \<le> length (dtb_table 1 @ replicate 2004 0)"
    by (simp add: dt_entry_def)
  from load_dtb_entry(3) [OF this refl]
  have "map_sum id (\<lambda>i. (map_option (\<lambda>d. dt_dtb_size d 0) (dtbh i), dtbs_size (header i)))
     (update_images huge_blob_files dtb_update_img) = Inr (Some 0, 2048)"
    by (simp add: huge_blob_run)
  moreover have "huge_blob_files ''platform.dtb_p0'' = Some (replicate 4294967296 0)"
    by (simp add: huge_blob_files_def)
  ultimately show ?thesis
    by simp
qed

section \<open>Copying the ramdisk forward\<close>

lemma load_second_copy_frame:
  assumes "second_fname img = None" and "load_second fs ssize soff img = Inr img'"
  shows "kernel img' = kernel img \<and> ramdisk img' = ramdisk img \<and> header img' = header img
    \<and> dtbs_fname img' = dtbs_fname img \<and> contents (stream img') = contents (stream img)"
  using assms
  by (auto simp add: load_second_def ebind_eq_Inr copy_section_Inr split: if_splits)

lemma update_images_kernel_only:
  assumes "kernel_fname img = Some kf" and "ramdisk_fname img = None"
    and "second_fname img = None" and "dtbs_fname img = None"
    and "fs kf = Some kc"
    and "update_images fs img = Inr img1"
  shows "header img1 = (header img)\<lparr>kernel_size := word_of_nat (length kc)\<rparr>"
    and "ramdisk img1 =
       Some (take (unat (ramdisk_size (header img)))
               (drop (unat (roffset (page_size (header img)) (kernel_size (header img))))
                  (contents (stream img))))"
    and "unat (roffset (page_size (header img)) (kernel_size (header img)))
           + unat (ramdisk_size (header img)) \<le> length (contents (stream img))"
    and "page_size (header img) \<noteq> 0"
proof -
  from assms(6) obtain i1 i2 i3 i4 where
    ps: "page_size (header img) \<noteq> 0" and
    st: "load_kernel fs img = Inr i1"
    "load_ramdisk fs (ramdisk_size (header img))
       (roffset (page_size (header img)) (kernel_size (header img))) i1 = Inr i2"
    "load_second fs (second_size (header img))
       (soffset (page_size (header img)) (kernel_size (header img)) (ramdisk_size (header img)))
       i2 = Inr i3"
    "load_dtbs fs (page_size (header img)) (dtbs_size (header img))
       (doffset (page_size (header img)) (kernel_size (header img)) (ramdisk_size (header img))
          (second_size (header img))) i3 = Inr i4"
    "check_size (page_size (header img)) (set_signature i4) = Inr img1"
    by (rule update_images_steps)
  have i1: "i1 = img\<lparr>header := (header img)\<lparr>kernel_size := word_of_nat (length kc)\<rparr>,
                    kernel := Some (take (unat (word_of_nat (length kc) :: u32)) kc)\<rparr>"
    using st(1) assms(1,5) by (auto simp add: load_kernel_def ebind_eq_Inr read_file_Inr)
  have i2: "header i2 = header i1
      \<and> ramdisk i2 = Some (take (unat (ramdisk_size (header img)))
               (drop (unat (roffset (page_size (header img)) (kernel_size (header img))))
                  (contents (stream img))))
      \<and> unat (roffset (page_size (header img)) (kernel_size (header img)))
           + unat (ramdisk_size (header img)) \<le> length (contents (stream img))
      \<and> second_fname i2 = None \<and> dtbs_fname i2 = None"
    using st(2) assms(2,3,4) unfolding i1
    by (auto simp add: load_ramdisk_def ebind_eq_Inr copy_section_Inr)
  note i3 = load_second_copy_frame [OF _ st(3)]
  have "dtbs_fname i3 = None"
    using i3 i2 by simp
  note i4 = load_dtbs_copy_frame [OF this st(4)]
  note i5 = check_size_frame [OF st(5)]
  show "header img1 = (header img)\<lparr>kernel_size := word_of_nat (length kc)\<rparr>"
    using i5 i4 i3 i2 i1 by simp
  show "ramdisk img1 =
       Some (take (unat (ramdisk_size (header img)))
               (drop (unat (roffset (page_size (header img)) (kernel_size (header img))))
                  (contents (stream img))))"
    using i5 i4 i3 i2 by simp
  show "unat (roffset (page_size (header img)) (kernel_size (header img)))
           + unat (ramdisk_size (header img)) \<le> length (contents (stream img))"
    using i2 by simp
  show "page_size (header img) \<noteq> 0"
    by (rule ps)
qed

lemma write_bootimg_steps:
  assumes "write_bootimg img = Inr f"
  obtains f1 f2 f3 f4 f5 where
    "page_size (header img) \<noteq> 0"
    "write_header img (stream img) = Inr f1"
    "write_kernel img f1 = Inr f2"
    "write_ramdisk img f2 = Inr f3"
    "write_second img f3 = Inr f4"
    "write_dtbs img f4 = Inr f5"
    "write_signature img f5 = Inr f"
  using assms
  by (auto simp add: write_bootimg_def ebind_eq_Inr split: if_splits)

lemma written_ramdisk:
  assumes w: "write_bootimg img = Inr f"
    and r: "ramdisk img = Some r" "length r = unat (ramdisk_size (header img))"
    and fits: "layout_fits (header img)"
  shows "take (length r)
           (drop ((1 + ceil_div (unat (kernel_size (header img))) (unat (page_size (header img))))
                    * unat (page_size (header img)))
              (contents f)) = r"
    and "(1 + ceil_div (unat (kernel_size (header img))) (unat (page_size (header img))))
             * unat (page_size (header img)) + length r \<le> length (contents f)"
proof -
  define h where "h = header img"
  define ps where "ps = page_size h"
  define P where "P = unat ps"
  define N where "N = ceil_div (unat (kernel_size h)) P"
  define M where "M = ceil_div (unat (ramdisk_size h)) P"
  define Q where "Q = ceil_div (unat (second_size h)) P"
  define D where "D = ceil_div (unat (dtbs_size h)) P"
  from w obtain f1 f2 f3 f4 f5 where
    ps0: "page_size (header img) \<noteq> 0" and
    st: "write_ramdisk img f2 = Inr f3" "write_second img f3 = Inr f4"
    "write_dtbs img f4 = Inr f5" "write_signature img f5 = Inr f"
    by (rule write_bootimg_steps)
  have ps: "0 < ps"
    using ps0 by (simp add: ps_def h_def word_greater_zero_iff)
  then have P: "0 < P"
    by (simp add: P_def word_less_nat_alt)
  have "(2 + N + M + Q + D) * P < 2 ^ 32"
    using fits by (simp add: layout_fits_def h_def ps_def P_def N_def M_def Q_def D_def)
  note lay = layout_exact [OF ps this [unfolded N_def M_def Q_def D_def P_def],
      folded P_def, folded N_def M_def Q_def D_def]
  define roff where "roff = (1 + N) * P"
  define q where "q = roff + length r"
  have ro: "unat (roffset ps (kernel_size h)) = roff"
    using lay by (simp add: roff_def)
  have "unat (ramdisk_size h) \<le> M * P"
    unfolding M_def using P by (rule ceil_div_mult_ge)
  then have q_so: "q \<le> unat (soffset ps (kernel_size h) (ramdisk_size h))"
    using lay r(2) by (simp add: q_def roff_def h_def add_mult_distrib)
  have q_do: "q \<le> unat (doffset ps (kernel_size h) (ramdisk_size h) (second_size h))"
    using q_so lay by (simp add: add_mult_distrib)
  have q_si: "q \<le> unat (signature_offset ps (kernel_size h) (ramdisk_size h) (second_size h)
                          (dtbs_size h))"
    using q_do lay by (simp add: add_mult_distrib)
  define g where "g = fwrite (fseek f2 roff) r"
  have f3: "f3 = fwrite g (replicate (unat ps - unat (ramdisk_size h) mod unat ps) 0)"
    using st(1) r ps
    by (simp add: write_ramdisk_def Let_def write_padded_eq g_def ro flip: h_def ps_def)
  have g_read: "take (length r) (drop roff (contents g)) = r"
    using read_back_fwrite [of r "fseek f2 roff"] by (simp add: g_def)
  have g_pos: "pos g = q" and g_len: "q \<le> length (contents g)"
    by (simp_all add: g_def q_def length_contents_fwrite)
  have k3: "keeps q g f3"
    unfolding f3 using g_pos g_len by (intro keeps_fwrite) simp_all
  have k4: "keeps q f3 f4"
    using st(2) q_so k3 unfolding h_def ps_def
    by (intro keeps_write_second) (auto simp add: keeps_def)
  have k5: "keeps q f4 f5"
    using st(3) q_do k4 unfolding h_def ps_def
    by (intro keeps_write_dtbs) (auto simp add: keeps_def)
  have k6: "keeps q f5 f"
    using st(4) q_si k5 unfolding h_def ps_def
    by (intro keeps_write_signature) (auto simp add: keeps_def)
  have k: "keeps q g f"
    using k3 k4 k5 k6 by (blast intro: keeps_trans)
  have "take (length r) (drop roff (contents f)) = take (length r) (drop roff (contents g))"
    using k by (rule keeps_read) (simp add: q_def)
  then show "take (length r)
           (drop ((1 + ceil_div (unat (kernel_size (header img))) (unat (page_size (header img))))
                    * unat (page_size (header img)))
              (contents f)) = r"
    using g_read by (simp add: roff_def N_def P_def ps_def h_def)
  show "(1 + ceil_div (unat (kernel_size (header img))) (unat (page_size (header img))))
             * unat (page_size (header img)) + length r \<le> length (contents f)"
    using keeps_length [OF k] by (simp add: q_def roff_def N_def P_def ps_def h_def)
qed

lemma cmd_update_Written:
  assumes "cmd_update fs img = Written out"
  obtains img1 f where "update_images fs img = Inr img1" "write_bootimg img1 = Inr f"
    "out = contents f"
  using assms by (auto simp add: cmd_update_def split: sum.splits)

lemma kernel_update_img_simps:
  "kernel_fname kernel_update_img = Some ''zImage''" "ramdisk_fname kernel_update_img = None"
  "second_fname kernel_update_img = None" "dtbs_fname kernel_update_img = None"
  "kernel kernel_update_img = None" "ramdisk kernel_update_img = None"
  "second kernel_update_img = None" "dtbh kernel_update_img = None"
  "dtbs kernel_update_img = []"
  "header kernel_update_img = small_hdr"
  "img_size kernel_update_img = 10240"
  "contents (stream kernel_update_img) =
     hdr_bytes small_hdr @ replicate 1440 0 @ [75] @ replicate 2047 0 @ [82] @ replicate 2047 0
       @ replicate 4096 0"
  "pos (stream kernel_update_img) = 608"
  "signature kernel_update_img = replicate 255 0"
  by (simp_all add: kernel_update_img_def opened_img_simps)
    (simp add: opened_img_def new_bootimg_def)

lemma kernel_update_run:
  assumes "length k < 2 ^ 32" and "k \<noteq> []"
    and "total_size 2048 (word_of_nat (length k)) 1 0 0 \<le> 10240"
  shows "update_images (new_kernel_files k) kernel_update_img =
     Inr (set_signature (kernel_update_img
       \<lparr>header := small_hdr\<lparr>kernel_size := word_of_nat (length k)\<rparr>,
        kernel := Some k,
        stream := (stream kernel_update_img)\<lparr>pos := 4097\<rparr>, ramdisk := Some [82]\<rparr>))"
proof -
  have u: "unat (word_of_nat (length k) :: u32) = length k"
    using assms(1) by (rule unat_of_nat32)
  have n: "(word_of_nat (length k) :: u32) \<noteq> 0"
    using u assms(2) by auto
  have k: "load_kernel (new_kernel_files k) kernel_update_img =
      Inr (kernel_update_img\<lparr>header := small_hdr\<lparr>kernel_size := word_of_nat (length k)\<rparr>,
                              kernel := Some k\<rparr>)"
    using n u
    by (simp add: load_kernel_def read_file_def new_kernel_files_def kernel_update_img_simps)
  have c: "copy_section (stream kernel_update_img) 4096 1 =
      Inr ([82], (stream kernel_update_img)\<lparr>pos := 4097\<rparr>)"
    by (simp add: copy_section_def fread_def kernel_update_img_simps sizeof_hdr_def)
  show ?thesis
    using assms(3)
    by (simp add: not_less update_images_def load_sections_def Let_def k c kernel_update_img_simps
        small_hdr_fields load_ramdisk_def load_second_def load_dtbs_def check_size_def
        roffset_def pages_def)
qed

lemma write_bootimg_returns:
  assumes "sizeof_hdr \<le> unat (page_size (header img))"
    and "kernel img = Some k" and "unat (kernel_size (header img)) \<le> length k"
    and "ramdisk img = Some r" and "unat (ramdisk_size (header img)) \<le> length r"
    and "second_size (header img) = 0" and "dtbh img = None"
  shows "\<exists>f. write_bootimg img = Inr f"
proof -
  have ps: "0 < page_size (header img)"
    using assms(1) by (auto simp add: sizeof_hdr_def word_greater_zero_iff)
  have "\<not> unat (page_size (header img))
      < unat (page_size (header img)) - 255 mod unat (page_size (header img))"
    by simp
  moreover have "page_size (header img) \<noteq> 0"
    using ps by simp
  ultimately show ?thesis
    using assms ps
    by (simp add: write_bootimg_def write_header_eq write_kernel_def write_ramdisk_def
        write_second_def write_dtbs_def write_signature_def write_padded_eq fwrite_buf_def Let_def)
qed


text \<open>
  Claim C1, as the code has it. In an update that names a replacement for the kernel
  only, where neither the layout of the source header nor the layout of the updated
  header reaches \<open>2 ^ 32\<close>, and that runs to the end of the writer: the \<open>ramdisk_size\<close>
  bytes of the output at the new offset \<open>(1 + \<lceil>new_kernel_size / page_size\<rceil>) * page_size\<close>
  are, byte for byte, the \<open>ramdisk_size\<close> bytes of the source image at the old offset
  \<open>(1 + \<lceil>old_kernel_size / page_size\<rceil>) * page_size\<close>; both ranges lie inside their files.
\<close>

theorem copy_forward_ramdisk:
  assumes "kernel_fname img = Some kf" and "ramdisk_fname img = None"
    and "second_fname img = None" and "dtbs_fname img = None"
    and "fs kf = Some kc"
    and "layout_fits (header img)"
    and "layout_fits ((header img)\<lparr>kernel_size := word_of_nat (length kc)\<rparr>)"
    and "cmd_update fs img = Written out"
  shows "take (unat (ramdisk_size (header img)))
           (drop ((1 + ceil_div (unat (word_of_nat (length kc) :: u32))
                         (unat (page_size (header img)))) * unat (page_size (header img))) out)
       = take (unat (ramdisk_size (header img)))
           (drop ((1 + ceil_div (unat (kernel_size (header img)))
                         (unat (page_size (header img)))) * unat (page_size (header img)))
              (contents (stream img)))
    \<and> (1 + ceil_div (unat (kernel_size (header img))) (unat (page_size (header img))))
          * unat (page_size (header img)) + unat (ramdisk_size (header img))
        \<le> length (contents (stream img))
    \<and> (1 + ceil_div (unat (word_of_nat (length kc) :: u32)) (unat (page_size (header img))))
          * unat (page_size (header img)) + unat (ramdisk_size (header img))
        \<le> length out"
proof -
  from assms(8) obtain img1 f where
    u: "update_images fs img = Inr img1" and w: "write_bootimg img1 = Inr f"
    and out: "out = contents f"
    by (rule cmd_update_Written)
  note k = update_images_kernel_only [OF assms(1-5) u]
  define h where "h = header img"
  define P where "P = unat (page_size h)"
  define rsz where "rsz = unat (ramdisk_size h)"
  define old where "old = (1 + ceil_div (unat (kernel_size h)) P) * P"
  define r where "r = take rsz (drop old (contents (stream img)))"
  have ps: "0 < page_size h"
    using k(4) by (simp add: h_def word_greater_zero_iff)
  have "unat (roffset (page_size h) (kernel_size h)) = old"
    using layout_exact [OF ps, of "kernel_size h" "ramdisk_size h" "second_size h" "dtbs_size h"]
      assms(6)
    by (simp add: layout_fits_def h_def old_def P_def)
  then have ram: "ramdisk img1 = Some r" and src: "old + rsz \<le> length (contents (stream img))"
    using k(2,3) by (simp_all add: r_def rsz_def h_def)
  have len: "length r = unat (ramdisk_size (header img1))"
    using src by (simp add: r_def k(1) rsz_def h_def)
  have fits: "layout_fits (header img1)"
    using assms(7) by (simp add: k(1))
  note wr = written_ramdisk [OF w ram len fits]
  have hd: "kernel_size (header img1) = word_of_nat (length kc)"
    "page_size (header img1) = page_size h" "length r = rsz"
    using len by (simp_all add: k(1) h_def rsz_def)
  show ?thesis
    using wr src unfolding hd out
    by (simp add: r_def old_def rsz_def P_def h_def)
qed


text \<open>
  The image \<open>kernel_update_img\<close> updated with a kernel of 2049 bytes, which takes two pages
  where the old one took one: the ramdisk byte 82, at 4096 in the source, is at 6144 in
  the output.
\<close>

theorem copy_forward_ramdisk_witness:
  "\<exists>out. cmd_update (new_kernel_files (replicate 2049 107)) kernel_update_img = Written out
     \<and> take 1 (drop 6144 out) = [82]
     \<and> take 1 (drop 4096 (contents (stream kernel_update_img))) = [82]"
proof -
  let ?fs = "new_kernel_files (replicate 2049 107)"
  let ?img1 = "set_signature (kernel_update_img
       \<lparr>header := small_hdr\<lparr>kernel_size := 2049\<rparr>,
        kernel := Some (replicate 2049 107),
        stream := (stream kernel_update_img)\<lparr>pos := 4097\<rparr>, ramdisk := Some [82]\<rparr>)"
  have u: "update_images ?fs kernel_update_img = Inr ?img1"
    using kernel_update_run [of "replicate 2049 107"] by (simp add: total_size_def pages_def)
  have "\<exists>f. write_bootimg ?img1 = Inr f"
    by (rule write_bootimg_returns [where k = "replicate 2049 107" and r = "[82]"])
      (simp_all add: small_hdr_fields sizeof_hdr_def kernel_update_img_simps)
  then obtain f where w: "write_bootimg ?img1 = Inr f" ..
  have run: "cmd_update ?fs kernel_update_img = Written (contents f)"
    by (simp add: cmd_update_def u w)
  have fits: "layout_fits (header kernel_update_img)"
    "layout_fits ((header kernel_update_img)
        \<lparr>kernel_size := word_of_nat (length (replicate 2049 (107::byte)))\<rparr>)"
    by (simp_all add: layout_fits_def kernel_update_img_simps small_hdr_fields)
  have zi: "?fs ''zImage'' = Some (replicate 2049 107)"
    by (simp add: new_kernel_files_def)
  from copy_forward_ramdisk [OF kernel_update_img_simps(1-4) zi fits run]
  have "take (unat (ramdisk_size small_hdr))
      (drop ((1 + ceil_div (unat (2049::u32)) (unat (page_size small_hdr)))
               * unat (page_size small_hdr)) (contents f))
    = take (unat (ramdisk_size small_hdr))
      (drop ((1 + ceil_div (unat (kernel_size small_hdr)) (unat (page_size small_hdr)))
               * unat (page_size small_hdr)) (contents (stream kernel_update_img)))"
    by (simp add: kernel_update_img_simps(10))
  then have "take 1 (drop 6144 (contents f)) = take 1 (drop 4096 (contents (stream kernel_update_img)))"
    by (simp add: small_hdr_fields)
  moreover have "take 1 (drop 4096 (contents (stream kernel_update_img))) = [82]"
    by (simp add: kernel_update_img_simps sizeof_hdr_def)
  ultimately show ?thesis
    using run by simp
qed


text \<open>
  Without the bounds the ramdisk can land elsewhere. With a replacement kernel of
  4294965248 bytes the offset \<^verbatim>\<open>(1+n)*psize\<close> of the ramdisk wraps to 0 and the total size
  wraps to 4096, so the update is not refused: the output then starts with the ramdisk
  byte 82, written over the header, and has a padding byte 0 at the offset \<open>2 ^ 32\<close>
  that the formula gives.
\<close>

theorem copy_forward_counterexample:
  "map_option (\<lambda>c. (take 1 c, take 1 (drop 4294967296 c)))
     (written (cmd_update (new_kernel_files (replicate 4294965248 107)) kernel_update_img))
     = Some ([82], [0])
   \<and> take 1 (drop 4096 (contents (stream kernel_update_img))) = [82]
   \<and> (1 + ceil_div (unat (kernel_size (header kernel_update_img)))
              (unat (page_size (header kernel_update_img))))
         * unat (page_size (header kernel_update_img)) = 4096
   \<and> (1 + ceil_div (length (replicate 4294965248 (107::byte)))
              (unat (page_size (header kernel_update_img))))
         * unat (page_size (header kernel_update_img)) = 4294967296"
proof -
  let ?fs = "new_kernel_files (replicate 4294965248 107)"
  let ?img1 = "set_signature (kernel_update_img
       \<lparr>header := small_hdr\<lparr>kernel_size := 4294965248\<rparr>,
        kernel := Some (replicate 4294965248 107),
        stream := (stream kernel_update_img)\<lparr>pos := 4097\<rparr>, ramdisk := Some [82]\<rparr>)"
  have u: "update_images ?fs kernel_update_img = Inr ?img1"
    using kernel_update_run [of "replicate 4294965248 107"] by (simp add: total_size_def pages_def)
  have ro: "unat (roffset 2048 4294965248) = 0"
    by (simp add: roffset_def pages_def)
  have so: "unat (signature_offset 2048 4294965248 1 0 0) = 2048"
    by (simp add: signature_offset_def pages_def)
  have pd: "unat ((2048::u32) - 4294965248 mod 2048) = 2048" "unat ((2048::u32) - 1 mod 2048) = 2047"
    by simp_all
  have "written (cmd_update ?fs kernel_update_img) =
      Some ([82] @ replicate 2047 0 @ fixed 255 (signature ?img1) @ replicate 1793 0
            @ replicate 4294963200 107 @ replicate 2048 0)"
    by (simp add: cmd_update_def u written_def write_bootimg_def write_header_eq write_kernel_def
        write_ramdisk_def write_second_def write_dtbs_def write_signature_def write_padded_def
        fwrite_buf_def fwrite_def fseek_def Let_def small_hdr_fields kernel_update_img_simps
        ro so pd sizeof_hdr_def padding_def)
  then show ?thesis
    by (simp add: kernel_update_img_simps small_hdr_fields sizeof_hdr_def)
qed

section \<open>Writing an image and reading it back\<close>

lemma created_hdr_fields:
  "magic created_hdr = BOOT_MAGIC" "kernel_size created_hdr = 1" "ramdisk_size created_hdr = 1"
  "second_size created_hdr = 1" "dtbs_size created_hdr = 0" "page_size created_hdr = 2048"
  by (simp_all add: created_hdr_def new_hdr_def)

lemma created_hdr_parse: "hdr_of_bytes (hdr_bytes created_hdr) = created_hdr"
  unfolding created_hdr_def by (rule hdr_of_bytes_new_hdr)

lemma create_run:
  "update_images create_files create_img =
     Inr (set_signature (create_img
       \<lparr>header := created_hdr, kernel := Some [75], ramdisk := Some [82], second := Some [83],
        img_size := 10240\<rparr>))"
  by (simp add: update_images_def load_sections_def Let_def load_kernel_def load_ramdisk_def
      load_second_def load_dtbs_def read_file_def check_size_def create_files_def create_img_def
      new_bootimg_def new_hdr_def created_hdr_def set_signature_def total_size_def pages_def)


lemma length_cstr [simp]: "length (cstr s) = length s"
  by (simp add: cstr_def)

lemma create_written:
  "written (cmd_create create_files create_img) = Some created_bytes"
proof -
  let ?img1 = "set_signature (create_img
       \<lparr>header := created_hdr, kernel := Some [75], ramdisk := Some [82], second := Some [83],
        img_size := 10240\<rparr>)"
  have c: "check_boot_img_header ?img1 = 0"
    by (simp add: check_boot_img_header_def created_hdr_fields pages_def Let_def)
  have ro: "unat (roffset 2048 1) = 4096" "unat (soffset 2048 1 1) = 6144"
    "unat (signature_offset 2048 1 1 1 0) = 8192"
    by (simp_all add: roffset_def soffset_def signature_offset_def pages_def)
  have pd: "unat ((2048::u32) - 1 mod 2048) = 2047"
    by simp
  have sg: "fixed 255 (signature ?img1) = cstr ''SEANDROIDENFORCE'' @ replicate 239 0"
    by (simp add: set_signature_def create_img_def new_bootimg_def fixed_def cstr_def
        replicate_append_same flip: replicate_Suc)
  have st: "stream ?img1 = \<lparr>contents = [], pos = 0, blockdev = False\<rparr>"
    "kernel ?img1 = Some [75]" "ramdisk ?img1 = Some [82]" "second ?img1 = Some [83]"
    "dtbh ?img1 = None" "header ?img1 = created_hdr"
    by (simp_all add: create_img_def new_bootimg_def)
  have nm: "kernel_fname create_img = Some ''zImage''"
    "ramdisk_fname create_img = Some ''initrd.gz''"
    by (simp_all add: create_img_def)
  show ?thesis
    unfolding cmd_create_def create_run
    by (simp add: nm c written_def write_bootimg_def write_header_eq write_kernel_def
        write_ramdisk_def write_second_def write_dtbs_def write_signature_def write_padded_def
        fwrite_buf_def fwrite_def fseek_def Let_def created_hdr_fields st sg
        ro pd sizeof_hdr_def padding_def created_bytes_def del: set_signature_simps)
qed


lemma read_created:
  "read_header (reopen created_bytes) =
     Inr ((reopen created_bytes)
           \<lparr>header := created_hdr,
            stream := \<lparr>contents = created_bytes, pos = 608, blockdev = False\<rparr>,
            img_size := 10240, is_blkdev := False\<rparr>)"
proof -
  have "fread (stream (reopen created_bytes)) sizeof_hdr =
      Some (hdr_bytes created_hdr, \<lparr>contents = created_bytes, pos = 608, blockdev = False\<rparr>)"
    by (simp add: reopen_def new_bootimg_def fread_def created_bytes_def)
      (simp add: sizeof_hdr_def)
  moreover have "length created_bytes = 10240"
    by (simp add: created_bytes_def sizeof_hdr_def)
  ultimately show ?thesis
    by (simp add: read_header_def check_boot_img_header_def Let_def created_hdr_parse
        created_hdr_fields pages_def reopen_def new_bootimg_def)
qed


text \<open>
  Claim C4 at an image created from a kernel, a ramdisk and a second stage of one byte
  each (75, 82 and 83) with pages of 2048 bytes. The file written is \<open>created_bytes\<close>.
  Opened again, it passes \<^verbatim>\<open>read_header\<close> with the header that was written, and
  \<^verbatim>\<open>extract_kernel\<close> and \<^verbatim>\<open>extract_ramdisk\<close> return the bytes that were written; but
  \<^verbatim>\<open>extract_second\<close> seeks to \<open>(1 + \<lceil>(1 + 1) / 2048\<rceil>) * 2048 = 4096\<close>, the offset of the
  ramdisk, and returns the byte 82 of the ramdisk where the second stage 83 was
  written, at 6144.
\<close>

theorem round_trip_second_stage:
  "written (cmd_create create_files create_img) = Some created_bytes
   \<and> map_sum id header (read_header (reopen created_bytes)) = Inr created_hdr
   \<and> ebind (read_header (reopen created_bytes)) extract_kernel = Inr [75]
   \<and> ebind (read_header (reopen created_bytes)) extract_ramdisk = Inr [82]
   \<and> ebind (read_header (reopen created_bytes)) extract_second = Inr (Some [82])
   \<and> create_files ''stage2.img'' = Some [83]"
proof -
  have "extract_kernel ((reopen created_bytes)
           \<lparr>header := created_hdr,
            stream := \<lparr>contents = created_bytes, pos = 608, blockdev = False\<rparr>,
            img_size := 10240, is_blkdev := False\<rparr>) = Inr [75]"
    by (simp add: extract_kernel_def created_hdr_fields koffset_def fread_def fseek_def Let_def
        created_bytes_def sizeof_hdr_def)
  moreover have "extract_ramdisk ((reopen created_bytes)
           \<lparr>header := created_hdr,
            stream := \<lparr>contents = created_bytes, pos = 608, blockdev = False\<rparr>,
            img_size := 10240, is_blkdev := False\<rparr>) = Inr [82]"
    by (simp add: extract_ramdisk_def created_hdr_fields roffset_def pages_def fread_def
        fseek_def Let_def created_bytes_def sizeof_hdr_def)
  moreover have "extract_second ((reopen created_bytes)
           \<lparr>header := created_hdr,
            stream := \<lparr>contents = created_bytes, pos = 608, blockdev = False\<rparr>,
            img_size := 10240, is_blkdev := False\<rparr>) = Inr (Some [82])"
    by (simp add: extract_second_def created_hdr_fields extract_second_soffset_def fread_def
        fseek_def Let_def created_bytes_def sizeof_hdr_def)
  moreover have "create_files ''stage2.img'' = Some [83]"
    by (simp add: create_files_def)
  ultimately show ?thesis
    by (simp add: create_written read_created)
qed

end
